theory Spec2Isabelle
  imports Complex_Main
begin

section \<open>Trace model (memory.py)\<close>

text \<open>
  Python strings are modelled as \<^typ>\<open>string\<close>, Python integers as \<^typ>\<open>int\<close>.
  Every call of \<^verbatim>\<open>datetime.now().isoformat()\<close> reads the wall clock; the clock is a
  function from the number of readings made so far to the text it returns, and the
  number of readings is threaded through every operation that reads it.
\<close>

type_synonym clock = "nat \<Rightarrow> string"

text \<open>The constants of class \<^verbatim>\<open>MistakeType\<close>.\<close>

definition MISSING_REQUIRED_TOOL :: string where
  "MISSING_REQUIRED_TOOL = ''missing_required_tool''"

definition WRONG_TOOL :: string where
  "WRONG_TOOL = ''wrong_tool''"

definition WRONG_SEQUENCE :: string where
  "WRONG_SEQUENCE = ''wrong_sequence''"

definition TOO_EARLY_ANSWER :: string where
  "TOO_EARLY_ANSWER = ''too_early_answer''"

definition IGNORED_TOOL_OUTPUT :: string where
  "IGNORED_TOOL_OUTPUT = ''ignored_tool_output''"

text \<open>An entry of \<^verbatim>\<open>trace.tool_calls\<close>: the dict built by \<^verbatim>\<open>add_tool_call\<close>; its key \<^verbatim>\<open>output\<close> is the field \<open>tool_output\<close>.\<close>

record ToolCall =
  tool :: string
  arguments :: "(string \<times> string) list"
  tool_output :: string
  order :: int

text \<open>
  An entry of \<^verbatim>\<open>trace.mistakes\<close>: the dict built by \<^verbatim>\<open>add_mistake\<close>, with its keys
  \<^verbatim>\<open>type\<close>, \<^verbatim>\<open>description\<close>, \<^verbatim>\<open>step\<close> and \<^verbatim>\<open>timestamp\<close>.
\<close>

record Mistake =
  mistake_type :: string
  description :: string
  step :: "int option"
  mistake_timestamp :: string

record ExecutionTrace =
  run_id :: int
  task :: string
  timestamp :: string
  tool_calls :: "ToolCall list"
  final_answer :: string
  success :: bool
  mistakes :: "Mistake list"

text \<open>\<^verbatim>\<open>ExecutionTrace.__init__\<close>\<close>

definition init_trace :: "int \<Rightarrow> string \<Rightarrow> string \<Rightarrow> ExecutionTrace" where
  "init_trace rid tsk ts =
     \<lparr>run_id = rid, task = tsk, timestamp = ts, tool_calls = [],
      final_answer = [], success = False, mistakes = []\<rparr>"

definition add_tool_call ::
  "string \<Rightarrow> (string \<times> string) list \<Rightarrow> string \<Rightarrow> ExecutionTrace \<Rightarrow> ExecutionTrace" where
  "add_tool_call tool_name args out tr =
     tr\<lparr>tool_calls := tool_calls tr @
          [\<lparr>tool = tool_name, arguments = args, tool_output = out,
            order = int (length (tool_calls tr)) + 1\<rparr>]\<rparr>"

definition set_final_answer :: "string \<Rightarrow> ExecutionTrace \<Rightarrow> ExecutionTrace" where
  "set_final_answer answer tr = tr\<lparr>final_answer := answer\<rparr>"

text \<open>
  \<^verbatim>\<open>add_mistake\<close> appends one mistake stamped with the current clock reading. The state
  is the trace together with the number of clock readings made so far.
\<close>

fun add_mistake ::
  "clock \<Rightarrow> string \<Rightarrow> string \<Rightarrow> int option \<Rightarrow> ExecutionTrace \<times> nat \<Rightarrow> ExecutionTrace \<times> nat" where
  "add_mistake clk ty desc st (tr, n) =
     (tr\<lparr>mistakes := mistakes tr @
           [\<lparr>mistake_type = ty, description = desc, step = st,
             mistake_timestamp = clk n\<rparr>]\<rparr>,
      Suc n)"

section \<open>Python string helpers\<close>

text \<open>Decimal text of an integer, as \<^verbatim>\<open>str(n)\<close> and an f-string field produce it.\<close>

fun digits :: "nat \<Rightarrow> string" where
  "digits n =
     (if n < 10 then [char_of (48 + n)]
      else digits (n div 10) @ [char_of (48 + n mod 10)])"

declare digits.simps [simp del]

definition str_int :: "int \<Rightarrow> string" where
  "str_int i = (if i < 0 then CHR ''-'' # digits (nat (- i)) else digits (nat i))"

text \<open>\<^verbatim>\<open>s.lower()\<close> on ASCII text: the letters A to Z are mapped to a to z.\<close>

definition lower_char :: "char \<Rightarrow> char" where
  "lower_char c =
     (if 65 \<le> (of_char c :: nat) \<and> (of_char c :: nat) \<le> 90
      then char_of ((of_char c :: nat) + 32) else c)"

definition lower :: "string \<Rightarrow> string" where
  "lower s = map lower_char s"

text \<open>\<^verbatim>\<open>p in s\<close> on strings: \<open>p\<close> occurs in \<open>s\<close> as a contiguous block.\<close>

fun starts_with :: "string \<Rightarrow> string \<Rightarrow> bool" where
  "starts_with [] s = True"
| "starts_with (p # ps) [] = False"
| "starts_with (p # ps) (c # cs) = (p = c \<and> starts_with ps cs)"

fun contains :: "string \<Rightarrow> string \<Rightarrow> bool" where
  "contains p [] = (p = [])"
| "contains p (c # cs) = (starts_with p (c # cs) \<or> contains p cs)"

text \<open>
  \<^verbatim>\<open>xs.index(x)\<close>: the position of the first occurrence. Python raises ValueError when
  \<open>x\<close> does not occur; every call in the source is guarded by \<^verbatim>\<open>x in xs\<close>.
\<close>

definition index :: "'a list \<Rightarrow> 'a \<Rightarrow> nat" where
  "index xs x = length (takeWhile (\<lambda>y. y \<noteq> x) xs)"

section \<open>Evaluator (evaluator.py)\<close>

text \<open>
  The raw message log. An assistant message carries its text and its tool invocations;
  a tool-result message carries its content and the correlation id. An invocation is the
  dict with keys \<^verbatim>\<open>name\<close>, \<^verbatim>\<open>args\<close> (read with a default) and \<^verbatim>\<open>id\<close> (possibly None).
\<close>

record tool_invocation =
  tc_name :: string
  tc_args :: "(string \<times> string) list option"
  tc_id :: "string option"

datatype message =
    HumanMessage string
  | SystemMessage string
  | AIMessage string "tool_invocation list"
  | ToolMessage string string

definition REQUIRED_TOOLS :: "string list" where
  "REQUIRED_TOOLS = [''check_weather'']"

text \<open>
  The inner loop of \<^verbatim>\<open>_extract_tool_calls\<close>: scan the whole log from its start for the
  first tool-result message with the given correlation id; \<^verbatim>\<open>''\<close> when there is none.
  \<^verbatim>\<open>ToolMessage c i\<close> has content \<open>c\<close> and \<^verbatim>\<open>tool_call_id\<close> \<open>i\<close>.
\<close>

fun find_output :: "message list \<Rightarrow> string option \<Rightarrow> string" where
  "find_output [] i = []"
| "find_output (ToolMessage c tid # ms) i =
     (if Some tid = i then c else find_output ms i)"
| "find_output (m # ms) i = find_output ms i"

definition extract_invocation ::
  "message list \<Rightarrow> tool_invocation \<Rightarrow> ExecutionTrace \<Rightarrow> ExecutionTrace" where
  "extract_invocation messages tc tr =
     add_tool_call (tc_name tc) (case tc_args tc of None \<Rightarrow> [] | Some a \<Rightarrow> a)
       (find_output messages (tc_id tc)) tr"

text \<open>The body of the outer loop of \<^verbatim>\<open>_extract_tool_calls\<close> for one message.\<close>

fun extract_message :: "message list \<Rightarrow> message \<Rightarrow> ExecutionTrace \<Rightarrow> ExecutionTrace" where
  "extract_message messages (AIMessage content tcs) tr =
     (let tr1 = (if tcs \<noteq> [] then fold (extract_invocation messages) tcs tr else tr)
      in if content \<noteq> [] \<and> tcs = [] then set_final_answer content tr1 else tr1)"
| "extract_message messages m tr = tr"

definition extract_tool_calls :: "message list \<Rightarrow> ExecutionTrace \<Rightarrow> ExecutionTrace" where
  "extract_tool_calls messages tr = fold (extract_message messages) messages tr"

definition tools_used :: "ExecutionTrace \<Rightarrow> string list" where
  "tools_used tr = map tool (tool_calls tr)"

definition missing_required_description :: "string \<Rightarrow> string" where
  "missing_required_description required_tool =
     ''Required tool '' @ [CHR 0x27] @ required_tool @ [CHR 0x27] @ '' was not used''"

definition check_required_tool ::
  "clock \<Rightarrow> string set \<Rightarrow> string \<Rightarrow> ExecutionTrace \<times> nat \<Rightarrow> ExecutionTrace \<times> nat" where
  "check_required_tool clk used required_tool st =
     (if required_tool \<notin> used
      then add_mistake clk MISSING_REQUIRED_TOOL
             (missing_required_description required_tool) None st
      else st)"

text \<open>\<^verbatim>\<open>_check_missing_required_tools\<close>: the set of tool names is computed once.\<close>

definition check_missing_required_tools ::
  "clock \<Rightarrow> ExecutionTrace \<times> nat \<Rightarrow> ExecutionTrace \<times> nat" where
  "check_missing_required_tools clk st =
     (let used = set (tools_used (fst st))
      in fold (check_required_tool clk used) REQUIRED_TOOLS st)"

definition check_hotels_before_flights ::
  "clock \<Rightarrow> string list \<Rightarrow> ExecutionTrace \<times> nat \<Rightarrow> ExecutionTrace \<times> nat" where
  "check_hotels_before_flights clk used st =
     (if ''recommend_hotels'' \<in> set used \<and> ''search_flights'' \<in> set used
      then (let hotel_idx = index used ''recommend_hotels'';
                flight_idx = index used ''search_flights''
            in if hotel_idx < flight_idx
               then add_mistake clk WRONG_SEQUENCE
                      ''Hotels were recommended before searching for flights''
                      (Some (int hotel_idx + 1)) st
               else st)
      else st)"

definition check_itinerary_last ::
  "clock \<Rightarrow> string list \<Rightarrow> ExecutionTrace \<times> nat \<Rightarrow> ExecutionTrace \<times> nat" where
  "check_itinerary_last clk used st =
     (if ''create_itinerary'' \<in> set used
      then (let itinerary_idx = index used ''create_itinerary''
            in if int itinerary_idx < int (length used) - 1
               then add_mistake clk WRONG_SEQUENCE
                      ''Itinerary was created before completing other planning steps''
                      (Some (int itinerary_idx + 1)) st
               else st)
      else st)"

definition check_weather_first ::
  "clock \<Rightarrow> string list \<Rightarrow> ExecutionTrace \<times> nat \<Rightarrow> ExecutionTrace \<times> nat" where
  "check_weather_first clk used st =
     (if ''check_weather'' \<in> set used
      then (let weather_idx = index used ''check_weather''
            in if weather_idx > 0
               then add_mistake clk WRONG_SEQUENCE
                      ''Weather should be checked before other tools''
                      (Some (int weather_idx + 1)) st
               else st)
      else st)"

text \<open>
  \<^verbatim>\<open>_check_tool_sequence\<close>: the list of tool names is computed once, before the three
  sub-checks, which run in the order of the source.
\<close>

definition check_tool_sequence ::
  "clock \<Rightarrow> ExecutionTrace \<times> nat \<Rightarrow> ExecutionTrace \<times> nat" where
  "check_tool_sequence clk st =
     (if length (tool_calls (fst st)) < 2 then st
      else (let used = tools_used (fst st)
            in check_weather_first clk used
                 (check_itinerary_last clk used
                    (check_hotels_before_flights clk used st))))"

definition check_early_termination ::
  "clock \<Rightarrow> ExecutionTrace \<times> nat \<Rightarrow> ExecutionTrace \<times> nat" where
  "check_early_termination clk st =
     (let tr = fst st
      in if final_answer tr \<noteq> [] \<and> length (tool_calls tr) < 2
         then add_mistake clk TOO_EARLY_ANSWER
                (''Agent provided final answer after only '' @
                 str_int (int (length (tool_calls tr))) @ '' tool calls'')
                (Some (int (length (tool_calls tr)))) st
         else st)"

definition generic_phrases :: "string list" where
  "generic_phrases =
     [''i cannot'', ''i don't have access'', ''i'm unable to'', ''i can't help'']"

definition check_tool_output_usage ::
  "clock \<Rightarrow> ExecutionTrace \<times> nat \<Rightarrow> ExecutionTrace \<times> nat" where
  "check_tool_output_usage clk st =
     (let tr = fst st
      in if final_answer tr = [] then st
         else (let final_answer_lower = lower (final_answer tr)
               in if length (tool_calls tr) > 0
                  then (let is_generic =
                              list_ex (\<lambda>phrase. contains phrase final_answer_lower)
                                generic_phrases
                        in if is_generic
                           then add_mistake clk IGNORED_TOOL_OUTPUT
                                  ''Agent ignored tool outputs and provided generic response''
                                  (Some (int (length (tool_calls tr)) + 1)) st
                           else st)
                  else st))"

text \<open>
  \<^verbatim>\<open>evaluate\<close>: extraction, the four checks in the order of the source, then the success
  flag. The result is the updated trace and the number of clock readings made.
\<close>

definition evaluate ::
  "clock \<Rightarrow> ExecutionTrace \<Rightarrow> message list \<Rightarrow> nat \<Rightarrow> ExecutionTrace \<times> nat" where
  "evaluate clk trace messages n =
     (let st0 = (extract_tool_calls messages trace, n);
          st1 = check_missing_required_tools clk st0;
          st2 = check_tool_sequence clk st1;
          st3 = check_early_termination clk st2;
          st4 = check_tool_output_usage clk st3
      in ((fst st4)\<lparr>success := (length (mistakes (fst st4)) = 0)\<rparr>, snd st4))"

section \<open>Memory store (memory.py)\<close>

text \<open>An entry of \<^verbatim>\<open>learned_constraints\<close>: the dict appended by the learning pass.\<close>

record Constraint =
  pattern_key :: string
  constraint :: string
  occurrences :: int
  created_at :: string

text \<open>
  The fields of \<^verbatim>\<open>MemoryStore\<close>. \<^verbatim>\<open>mistake_patterns\<close> is a dict, which keeps its keys
  in insertion order; it is an association list, in that order.
\<close>

record MemoryStore =
  execution_history :: "ExecutionTrace list"
  learned_constraints :: "Constraint list"
  mistake_patterns :: "(string \<times> int) list"
  run_counter :: int

text \<open>
  The durable document. \<^verbatim>\<open>_load\<close> reads each key with \<^verbatim>\<open>data.get(key, default)\<close>, so
  each key may be absent.
\<close>

record document =
  doc_run_counter :: "int option"
  doc_learned_constraints :: "Constraint list option"
  doc_mistake_patterns :: "(string \<times> int) list option"
  doc_execution_history :: "ExecutionTrace list option"

text \<open>
  What the operations of a store act on: the store object, the file at its
  \<^verbatim>\<open>storage_path\<close> (\<open>None\<close> when the file does not exist) and the number of clock
  readings made so far.
\<close>

record world =
  store :: MemoryStore
  disk :: "document option"
  ticks :: nat

datatype error = ValueError

text \<open>The slice \<^verbatim>\<open>xs[-n:]\<close>.\<close>

definition last_n :: "nat \<Rightarrow> 'a list \<Rightarrow> 'a list" where
  "last_n n xs = drop (length xs - n) xs"

text \<open>The slice \<^verbatim>\<open>xs[-a:-b]\<close>, for positive \<open>a\<close> and \<open>b\<close>.\<close>

definition slice_neg :: "nat \<Rightarrow> nat \<Rightarrow> 'a list \<Rightarrow> 'a list" where
  "slice_neg a b xs = drop (length xs - a) (take (length xs - b) xs)"

definition to_dict :: "ExecutionTrace \<Rightarrow> ExecutionTrace" where
  "to_dict tr =
     \<lparr>run_id = run_id tr, task = task tr, timestamp = timestamp tr,
      tool_calls = tool_calls tr, final_answer = final_answer tr,
      success = success tr, mistakes = mistakes tr\<rparr>"

text \<open>The body of the loop of \<^verbatim>\<open>_load\<close> that rebuilds one trace.\<close>

definition load_trace :: "ExecutionTrace \<Rightarrow> ExecutionTrace" where
  "load_trace trace_data =
     (init_trace (run_id trace_data) (task trace_data) (timestamp trace_data))
       \<lparr>tool_calls := tool_calls trace_data,
        final_answer := final_answer trace_data,
        success := success trace_data,
        mistakes := mistakes trace_data\<rparr>"

definition default :: "'a \<Rightarrow> 'a option \<Rightarrow> 'a" where
  "default d v = (case v of None \<Rightarrow> d | Some x \<Rightarrow> x)"

definition load :: "document option \<Rightarrow> MemoryStore \<Rightarrow> MemoryStore" where
  "load file s =
     (case file of
        None \<Rightarrow> s
      | Some data \<Rightarrow>
          s\<lparr>run_counter := default 0 (doc_run_counter data),
            learned_constraints := default [] (doc_learned_constraints data),
            mistake_patterns := default [] (doc_mistake_patterns data),
            execution_history := execution_history s @
              map load_trace (last_n 50 (default [] (doc_execution_history data)))\<rparr>)"

text \<open>\<^verbatim>\<open>MemoryStore.__init__\<close>: the empty state, then \<^verbatim>\<open>_load\<close>.\<close>

definition new_store :: "document option \<Rightarrow> MemoryStore" where
  "new_store file =
     load file
       \<lparr>execution_history = [], learned_constraints = [], mistake_patterns = [],
        run_counter = 0\<rparr>"

text \<open>\<^verbatim>\<open>_save\<close>: the document written over the file.\<close>

definition save :: "MemoryStore \<Rightarrow> document" where
  "save s =
     \<lparr>doc_run_counter = Some (run_counter s),
      doc_learned_constraints = Some (learned_constraints s),
      doc_mistake_patterns = Some (mistake_patterns s),
      doc_execution_history = Some (map to_dict (last_n 50 (execution_history s)))\<rparr>"

definition create_trace :: "clock \<Rightarrow> string \<Rightarrow> world \<Rightarrow> ExecutionTrace \<times> world" where
  "create_trace clk tsk w =
     (let s = (store w)\<lparr>run_counter := run_counter (store w) + 1\<rparr>
      in (init_trace (run_counter s) tsk (clk (ticks w)),
          w\<lparr>store := s, ticks := Suc (ticks w)\<rparr>))"

text \<open>\<^verbatim>\<open>self.mistake_patterns[pattern_key] += 1\<close> on a \<^verbatim>\<open>defaultdict(int)\<close>.\<close>

fun bump :: "string \<Rightarrow> (string \<times> int) list \<Rightarrow> (string \<times> int) list" where
  "bump k [] = [(k, 0 + 1)]"
| "bump k ((k', c) # ps) = (if k' = k then (k', c + 1) # ps else (k', c) # bump k ps)"

definition pattern_key_of :: "Mistake \<Rightarrow> string" where
  "pattern_key_of mistake = mistake_type mistake @ '':'' @ description mistake"

text \<open>
  \<^verbatim>\<open>pattern_key.split(":", 1)\<close> unpacked into two names: \<open>None\<close> when the key has no
  colon, where the unpacking raises ValueError.
\<close>

definition split_key :: "string \<Rightarrow> (string \<times> string) option" where
  "split_key k =
     (let pre = takeWhile (\<lambda>c. c \<noteq> CHR '':'') k
      in if length pre = length k then None
         else Some (pre, drop (Suc (length pre)) k))"

definition constraints_map :: "string \<Rightarrow> (string \<times> string) list" where
  "constraints_map desc =
     [(MISSING_REQUIRED_TOOL, ''ALWAYS use the required tool mentioned: '' @ desc),
      (WRONG_SEQUENCE, ''Follow the correct tool sequence: '' @ desc),
      (TOO_EARLY_ANSWER,
         ''Do NOT provide a final answer until ALL necessary tools have been called''),
      (IGNORED_TOOL_OUTPUT, ''MUST incorporate tool outputs into your answer: '' @ desc),
      (WRONG_TOOL, ''Use the correct tool: '' @ desc)]"

definition create_constraint :: "string \<Rightarrow> string \<Rightarrow> int \<Rightarrow> string option" where
  "create_constraint ty desc count =
     (case map_of (constraints_map desc) ty of
        Some base_constraint \<Rightarrow>
          Some (base_constraint @ '' (learned from '' @ str_int count @ '' past mistakes)'')
      | None \<Rightarrow> None)"

text \<open>
  The loop of \<^verbatim>\<open>_learn_from_patterns\<close> over the items of \<^verbatim>\<open>mistake_patterns\<close>. It stops
  where the unpacking of a key raises; the constraints appended before that stay in
  the store. The result is the store, the clock readings made and the exception, if any.
\<close>

fun learn_loop ::
  "clock \<Rightarrow> (string \<times> int) list \<Rightarrow> MemoryStore \<Rightarrow> nat \<Rightarrow> MemoryStore \<times> nat \<times> error option" where
  "learn_loop clk [] s n = (s, n, None)"
| "learn_loop clk ((key, count) # rest) s n =
     (if count \<ge> 2
      then (case split_key key of
              None \<Rightarrow> (s, n, Some ValueError)
            | Some (ty, desc) \<Rightarrow>
                (let existing = list_ex (\<lambda>c. pattern_key c = key) (learned_constraints s)
                 in if \<not> existing
                    then (case create_constraint ty desc count of
                            Some constraint_text \<Rightarrow>
                              (if constraint_text \<noteq> []
                               then learn_loop clk rest
                                      (s\<lparr>learned_constraints := learned_constraints s @
                                           [\<lparr>pattern_key = key, constraint = constraint_text,
                                             occurrences = count, created_at = clk n\<rparr>]\<rparr>)
                                      (Suc n)
                               else learn_loop clk rest s n)
                          | None \<Rightarrow> learn_loop clk rest s n)
                    else learn_loop clk rest s n))
      else learn_loop clk rest s n)"

definition learn_from_patterns ::
  "clock \<Rightarrow> MemoryStore \<Rightarrow> nat \<Rightarrow> MemoryStore \<times> nat \<times> error option" where
  "learn_from_patterns clk s n = learn_loop clk (mistake_patterns s) s n"

text \<open>
  \<^verbatim>\<open>save_trace\<close>: append the trace, count its mistakes, run the learning pass and write
  the file. When the learning pass raises, the file is not written. The trace is stored
  by value.
\<close>

definition save_trace :: "clock \<Rightarrow> ExecutionTrace \<Rightarrow> world \<Rightarrow> world \<times> error option" where
  "save_trace clk trace w =
     (let s1 = (store w)\<lparr>execution_history := execution_history (store w) @ [trace]\<rparr>;
          s2 = s1\<lparr>mistake_patterns :=
                    fold (\<lambda>mistake. bump (pattern_key_of mistake)) (mistakes trace)
                      (mistake_patterns s1)\<rparr>
      in (case learn_from_patterns clk s2 (ticks w) of
            (s3, n, Some e) \<Rightarrow> (w\<lparr>store := s3, ticks := n\<rparr>, Some e)
          | (s3, n, None) \<Rightarrow> (w\<lparr>store := s3, ticks := n, disk := Some (save s3)\<rparr>, None)))"

definition get_active_constraints :: "MemoryStore \<Rightarrow> string list" where
  "get_active_constraints s = map constraint (learned_constraints s)"

text \<open>
  Python floats. A float is an IEEE 754 double and is represented by the rational number
  it denotes. \<open>to_float x\<close> is the double nearest to the rational \<open>x\<close>, a tie going to
  the one with the even significand; the significand has 53 bits. The range of the
  exponent of a double is not modelled: the numbers that occur are quotients and
  hundredfold multiples of sums of list lengths, which are far inside that range.
\<close>

definition round_half_even :: "rat \<Rightarrow> int" where
  "round_half_even y =
     (let f = \<lfloor>y\<rfloor>; d = y - of_int f
      in if d < 1 / 2 then f
         else if d > 1 / 2 then f + 1
         else if even f then f else f + 1)"

text \<open>\<^verbatim>\<open>n.bit_length()\<close> of a positive integer.\<close>

function bit_length :: "int \<Rightarrow> int" where
  "bit_length n = (if n \<le> 0 then 0 else 1 + bit_length (n div 2))"
  by pat_completeness auto
termination
  by (relation "measure nat") auto

declare bit_length.simps [simp del]

definition pow2 :: "int \<Rightarrow> rat" where
  "pow2 e = (if 0 \<le> e then 2 ^ nat e else 1 / 2 ^ nat (- e))"

text \<open>
  The exponent \<open>e\<close> of the last significand bit of a positive rational \<open>a\<close>: the one with
  \<open>2 ^ 52 \<le> a / 2 ^ e < 2 ^ 53\<close>.
\<close>

definition float_exponent :: "rat \<Rightarrow> int" where
  "float_exponent a =
     (let (p, q) = quotient_of a;
          d = bit_length p - bit_length q
      in (if pow2 d \<le> a then d else d - 1) - 52)"

definition to_float :: "rat \<Rightarrow> rat" where
  "to_float x =
     (if x = 0 then 0
      else (let e = float_exponent \<bar>x\<bar>
            in sgn x * of_int (round_half_even (\<bar>x\<bar> / pow2 e)) * pow2 e))"

text \<open>
  \<^verbatim>\<open>a / b\<close> on two ints, which Python rounds correctly from the exact quotient, and
  \<^verbatim>\<open>x * y\<close> on floats.
\<close>

definition float_div :: "int \<Rightarrow> int \<Rightarrow> rat" where
  "float_div a b = to_float (of_int a / of_int b)"

definition float_mul :: "rat \<Rightarrow> rat \<Rightarrow> rat" where
  "float_mul x y = to_float (x * y)"

text \<open>
  \<^verbatim>\<open>round(x, 2)\<close>: the decimal with two places nearest to the value of \<open>x\<close>, a tie going
  to the even one, and then the float nearest to that decimal. On the int 0 it is 0.
\<close>

definition round2 :: "rat \<Rightarrow> rat" where
  "round2 x = to_float (of_int (round_half_even (x * 100)) / 100)"

definition count_mistakes :: "ExecutionTrace list \<Rightarrow> int" where
  "count_mistakes traces = sum_list (map (\<lambda>trace. int (length (mistakes trace))) traces)"

text \<open>The variable \<^verbatim>\<open>improvement\<close> of \<^verbatim>\<open>get_statistics\<close>: a float, or the int 0.\<close>

definition improvement :: "MemoryStore \<Rightarrow> rat" where
  "improvement s =
     (if length (execution_history s) \<ge> 10
      then (let recent_mistakes = count_mistakes (last_n 5 (execution_history s));
                previous_mistakes = count_mistakes (slice_neg 10 5 (execution_history s))
            in float_mul
                 (float_div (previous_mistakes - recent_mistakes) (max previous_mistakes 1))
                 100)
      else 0)"

record statistics =
  total_runs :: int
  successful_runs :: int
  total_mistakes :: int
  n_learned_constraints :: int
  improvement_rate :: rat
  stat_mistake_patterns :: "(string \<times> int) list"

definition get_statistics :: "MemoryStore \<Rightarrow> statistics" where
  "get_statistics s =
     \<lparr>total_runs = int (length (execution_history s)),
      successful_runs = int (length (filter success (execution_history s))),
      total_mistakes = count_mistakes (execution_history s),
      n_learned_constraints = int (length (learned_constraints s)),
      improvement_rate = round2 (improvement s),
      stat_mistake_patterns = mistake_patterns s\<rparr>"

section \<open>Sequences of calls on a store\<close>

text \<open>
  A caller may make any sequence of \<^verbatim>\<open>create_trace\<close> and \<^verbatim>\<open>save_trace\<close> calls. An
  exception of \<^verbatim>\<open>save_trace\<close> is taken to be caught by the caller, as the driver loop of
  \<^verbatim>\<open>main.py\<close> does, so the sequence goes on with the store as the failed call left it.
\<close>

datatype call = CreateTrace string | SaveTrace ExecutionTrace

fun run_call :: "clock \<Rightarrow> call \<Rightarrow> world \<Rightarrow> world" where
  "run_call clk (CreateTrace tsk) w = snd (create_trace clk tsk w)"
| "run_call clk (SaveTrace trace) w = fst (save_trace clk trace w)"

definition run_calls :: "clock \<Rightarrow> call list \<Rightarrow> world \<Rightarrow> world" where
  "run_calls clk calls w = fold (run_call clk) calls w"

fun is_create :: "call \<Rightarrow> bool" where
  "is_create (CreateTrace tsk) = True"
| "is_create (SaveTrace trace) = False"

definition save_all :: "clock \<Rightarrow> ExecutionTrace list \<Rightarrow> world \<Rightarrow> world" where
  "save_all clk traces w = fold (\<lambda>trace w. fst (save_trace clk trace w)) traces w"

section \<open>Notions used in the statements\<close>

text \<open>
  What the learning pass reads from a pattern key: the type of mistake before the first
  colon, and the constraint text it synthesises for the key at a given count.
\<close>

definition key_kind :: "string \<Rightarrow> string option" where
  "key_kind k = map_option fst (split_key k)"

definition constraint_text_for :: "string \<Rightarrow> int \<Rightarrow> string option" where
  "constraint_text_for k n =
     (case split_key k of None \<Rightarrow> None | Some (ty, desc) \<Rightarrow> create_constraint ty desc n)"

text \<open>What a mistake says, apart from the time at which it was detected.\<close>

definition finding :: "Mistake \<Rightarrow> string \<times> string \<times> int option" where
  "finding m = (mistake_type m, description m, step m)"

text \<open>
  Two traces that agree on everything the evaluator reads: the tool calls, the final
  answer and the findings recorded so far.
\<close>

definition same_findings :: "ExecutionTrace \<Rightarrow> ExecutionTrace \<Rightarrow> bool" where
  "same_findings t1 t2 =
     (tool_calls t1 = tool_calls t2 \<and> final_answer t1 = final_answer t2
      \<and> map finding (mistakes t1) = map finding (mistakes t2))"

text \<open>The mistakes that one call of \<^verbatim>\<open>evaluate\<close> appends to those the trace already had.\<close>

definition added_mistakes :: "clock \<Rightarrow> ExecutionTrace \<Rightarrow> message list \<Rightarrow> nat \<Rightarrow> Mistake list" where
  "added_mistakes clk trace messages n =
     drop (length (mistakes trace)) (mistakes (fst (evaluate clk trace messages n)))"

text \<open>A step of the evaluator that only appends mistakes, each of them satisfying \<open>P\<close>.\<close>

definition appends ::
  "(Mistake \<Rightarrow> bool) \<Rightarrow> ExecutionTrace \<times> nat \<Rightarrow> ExecutionTrace \<times> nat \<Rightarrow> bool" where
  "appends P st st' =
     (\<exists>new. mistakes (fst st') = mistakes (fst st) @ new \<and> list_all P new)"

text \<open>
  A mistake that is not of type wrong_tool and that the learning pass does not read as
  one from its pattern key.
\<close>

definition not_wrong_tool :: "Mistake \<Rightarrow> bool" where
  "not_wrong_tool m =
     (mistake_type m \<noteq> WRONG_TOOL \<and> key_kind (pattern_key_of m) \<noteq> Some WRONG_TOOL)"

text \<open>
  A constraint that is not a wrong_tool constraint: the learning pass does not read the
  type wrong_tool from its pattern key, and its text is not made from the template of
  wrong_tool.
\<close>

definition not_wrong_tool_constraint :: "Constraint \<Rightarrow> bool" where
  "not_wrong_tool_constraint c =
     (key_kind (pattern_key c) \<noteq> Some WRONG_TOOL
      \<and> \<not> starts_with ''Use the correct tool: '' (constraint c))"

text \<open>
  A run of the driver: a trace is created with some run id, task and time, and evaluated
  on the message log of the run, after some number of clock readings.
\<close>

fun evaluate_run :: "clock \<Rightarrow> int \<times> string \<times> string \<times> message list \<times> nat \<Rightarrow> ExecutionTrace" where
  "evaluate_run clk (rid, tsk, ts, messages, n) =
     fst (evaluate clk (init_trace rid tsk ts) messages n)"

text \<open>The tool invocations carried by the assistant messages of a log, in log order.\<close>

fun invocations_of :: "message \<Rightarrow> tool_invocation list" where
  "invocations_of (AIMessage content tcs) = tcs"
| "invocations_of m = []"

definition invocations :: "message list \<Rightarrow> tool_invocation list" where
  "invocations messages = concat (map invocations_of messages)"

text \<open>
  A tool-result message whose correlation id is the given invocation id, and the content
  of a message.
\<close>

fun is_result_for :: "string option \<Rightarrow> message \<Rightarrow> bool" where
  "is_result_for i (ToolMessage c tid) = (Some tid = i)"
| "is_result_for i m = False"

fun content_of :: "message \<Rightarrow> string" where
  "content_of (HumanMessage c) = c"
| "content_of (SystemMessage c) = c"
| "content_of (AIMessage c tcs) = c"
| "content_of (ToolMessage c tid) = c"

text \<open>
  The content of the first tool-result message of a list of messages whose correlation
  id matches, and the empty string when there is none.
\<close>

definition first_result :: "message list \<Rightarrow> string option \<Rightarrow> string" where
  "first_result messages i =
     (case find (is_result_for i) messages of None \<Rightarrow> [] | Some m \<Rightarrow> content_of m)"

text \<open>
  Following the words of the specification: the content of the first tool-result message
  after position \<open>pos\<close> of the log (the position of the assistant message) whose
  correlation id matches, and the empty string when there is none.
\<close>

definition first_subsequent_result :: "message list \<Rightarrow> nat \<Rightarrow> string option \<Rightarrow> string" where
  "first_subsequent_result messages pos i = first_result (drop (Suc pos) messages) i"

definition name_and_output :: "ToolCall \<Rightarrow> string \<times> string" where
  "name_and_output c = (tool c, tool_output c)"

text \<open>Concrete inputs.\<close>

definition fixed_clock :: clock where
  "fixed_clock n = ''2025-01-01T00:00:01''"

definition trace0 :: ExecutionTrace where
  "trace0 = init_trace 1 ''plan a trip'' ''2025-01-01T00:00:00''"

definition log_answer_only :: "message list" where
  "log_answer_only = [HumanMessage ''plan a trip'', AIMessage ''done'' []]"

definition trace_scenario_C :: ExecutionTrace where
  "trace_scenario_C =
     fold (\<lambda>nm. add_tool_call nm [] [])
       [''search_flights'', ''check_weather'', ''recommend_hotels'', ''create_itinerary'']
       trace0"

definition log_reused_id :: "message list" where
  "log_reused_id =
     [HumanMessage ''plan a trip'',
      AIMessage [] [\<lparr>tc_name = ''check_weather'', tc_args = Some [], tc_id = Some ''call_1''\<rparr>],
      ToolMessage ''sunny'' ''call_1'',
      AIMessage [] [\<lparr>tc_name = ''search_flights'', tc_args = Some [], tc_id = Some ''call_1''\<rparr>],
      ToolMessage ''flight AB12'' ''call_1'',
      AIMessage ''done'' []]"

definition log_no_result :: "message list" where
  "log_no_result =
     [AIMessage [] [\<lparr>tc_name = ''check_weather'', tc_args = None, tc_id = Some ''call_1''\<rparr>],
      ToolMessage ''rainy'' ''call_9'']"

definition a_mistake :: Mistake where
  "a_mistake = \<lparr>mistake_type = WRONG_SEQUENCE,
     description = ''Weather should be checked before other tools'',
     step = Some 2, mistake_timestamp = ''2025-01-01T00:00:01''\<rparr>"

definition trace_with :: "nat \<Rightarrow> ExecutionTrace" where
  "trace_with k = trace0\<lparr>mistakes := replicate k a_mistake\<rparr>"

definition store_of_history :: "ExecutionTrace list \<Rightarrow> MemoryStore" where
  "store_of_history h =
     \<lparr>execution_history = h, learned_constraints = [], mistake_patterns = [],
      run_counter = int (length h)\<rparr>"

definition runs_3_then_1 :: "ExecutionTrace list" where
  "runs_3_then_1 = trace_with 3 # replicate 4 (trace_with 0) @ trace_with 1 # replicate 4 (trace_with 0)"

definition runs_160_then_67 :: "ExecutionTrace list" where
  "runs_160_then_67 =
     trace_with 160 # replicate 4 (trace_with 0) @ trace_with 67 # replicate 4 (trace_with 0)"

definition runs_0_then_2 :: "ExecutionTrace list" where
  "runs_0_then_2 = replicate 5 (trace_with 0) @ trace_with 2 # replicate 4 (trace_with 0)"

text \<open>The pattern keys of a list of constraints, in order.\<close>

definition keys_of :: "Constraint list \<Rightarrow> string list" where
  "keys_of cs = map pattern_key cs"

text \<open>
  The constraint list \<open>cs\<close> is the list \<open>old\<close> followed by new constraints, which have
  pairwise different pattern keys, none of them the key of a constraint of \<open>old\<close>.
\<close>

definition adds_fresh_keys :: "Constraint list \<Rightarrow> Constraint list \<Rightarrow> bool" where
  "adds_fresh_keys old cs =
     (\<exists>new. cs = old @ new \<and> distinct (keys_of new)
        \<and> set (keys_of new) \<inter> set (keys_of old) = {})"

text \<open>
  The same, where moreover every new constraint records as its occurrences the count
  that the pattern table \<open>ps\<close> holds for its key, a count of at least 2, and has
  the text synthesised for its key at that count.
\<close>

definition learned_from ::
  "(string \<times> int) list \<Rightarrow> Constraint list \<Rightarrow> Constraint list \<Rightarrow> bool" where
  "learned_from ps old cs =
     (\<exists>new. cs = old @ new \<and> distinct (keys_of new)
        \<and> set (keys_of new) \<inter> set (keys_of old) = {}
        \<and> list_all (\<lambda>c. (pattern_key c, occurrences c) \<in> set ps \<and> 2 \<le> occurrences c
                         \<and> constraint_text_for (pattern_key c) (occurrences c)
                             = Some (constraint c)) new)"

text \<open>The pattern table of a store after the mistakes of a trace have been counted.\<close>

definition counted :: "ExecutionTrace \<Rightarrow> MemoryStore \<Rightarrow> (string \<times> int) list" where
  "counted trace s =
     fold (\<lambda>mistake. bump (pattern_key_of mistake)) (mistakes trace) (mistake_patterns s)"

text \<open>A store created where no file exists, and the pattern key of the mistake above.\<close>

definition empty_world :: world where
  "empty_world = \<lparr>store = new_store None, disk = None, ticks = 0\<rparr>"

definition runs_answer_only ::
  "(int \<times> string \<times> string \<times> message list \<times> nat) list" where
  "runs_answer_only =
     [(1, ''plan a trip'', ''2025-01-01T00:00:00'', log_answer_only, 0),
      (2, ''plan a trip'', ''2025-01-02T00:00:00'', log_answer_only, 2)]"

definition trace_wrong_tool :: ExecutionTrace where
  "trace_wrong_tool =
     trace0\<lparr>mistakes := [\<lparr>mistake_type = WRONG_TOOL, description = ''used a map'',
                           step = Some 1, mistake_timestamp = ''2025-01-01T00:00:01''\<rparr>]\<rparr>"

definition weather_key :: string where
  "weather_key = pattern_key_of a_mistake"

section \<open>Properties of the evaluator\<close>

lemmas kinds = MISSING_REQUIRED_TOOL_def WRONG_TOOL_def WRONG_SEQUENCE_def
  TOO_EARLY_ANSWER_def IGNORED_TOOL_OUTPUT_def

text \<open>
  C1. After \<^verbatim>\<open>evaluate(trace, raw_messages)\<close> returns, \<^verbatim>\<open>trace.success\<close> is true
  exactly when \<^verbatim>\<open>trace.mistakes\<close> is empty, for every trace and every raw message log.
\<close>

theorem evaluate_success_iff_no_mistakes:
  "success (fst (evaluate clk trace messages n))
     = (mistakes (fst (evaluate clk trace messages n)) = [])"
  by (simp add: evaluate_def Let_def)

subsection \<open>Evaluating the same log again\<close>

lemma sf_add_mistake:
  "same_findings (fst st1) (fst st2) \<Longrightarrow>
   same_findings (fst (add_mistake c1 ty d s st1)) (fst (add_mistake c2 ty d s st2))"
  by (cases st1; cases st2) (simp add: same_findings_def finding_def)

lemma sf_required:
  assumes "same_findings (fst st1) (fst st2)"
  shows "same_findings (fst (check_missing_required_tools c1 st1))
           (fst (check_missing_required_tools c2 st2))"
proof -
  have tc: "tool_calls (fst st1) = tool_calls (fst st2)"
    using assms by (simp add: same_findings_def)
  show ?thesis
    by (simp add: check_missing_required_tools_def REQUIRED_TOOLS_def check_required_tool_def
        Let_def tools_used_def tc sf_add_mistake assms)
qed

lemma sf_hotels:
  "same_findings (fst st1) (fst st2) \<Longrightarrow>
   same_findings (fst (check_hotels_before_flights c1 used st1))
     (fst (check_hotels_before_flights c2 used st2))"
  by (simp add: check_hotels_before_flights_def Let_def sf_add_mistake)

lemma sf_itinerary:
  "same_findings (fst st1) (fst st2) \<Longrightarrow>
   same_findings (fst (check_itinerary_last c1 used st1))
     (fst (check_itinerary_last c2 used st2))"
  by (simp add: check_itinerary_last_def Let_def sf_add_mistake)

lemma sf_weather:
  "same_findings (fst st1) (fst st2) \<Longrightarrow>
   same_findings (fst (check_weather_first c1 used st1))
     (fst (check_weather_first c2 used st2))"
  by (simp add: check_weather_first_def Let_def sf_add_mistake)

lemma sf_sequence:
  assumes "same_findings (fst st1) (fst st2)"
  shows "same_findings (fst (check_tool_sequence c1 st1)) (fst (check_tool_sequence c2 st2))"
proof -
  have tc: "tool_calls (fst st1) = tool_calls (fst st2)"
    using assms by (simp add: same_findings_def)
  have "same_findings
      (fst (check_weather_first c1 used (check_itinerary_last c1 used
              (check_hotels_before_flights c1 used st1))))
      (fst (check_weather_first c2 used (check_itinerary_last c2 used
              (check_hotels_before_flights c2 used st2))))" for used
    by (intro sf_weather sf_itinerary sf_hotels assms)
  then show ?thesis
    by (simp add: check_tool_sequence_def Let_def tools_used_def tc assms)
qed

lemma sf_early:
  assumes "same_findings (fst st1) (fst st2)"
  shows "same_findings (fst (check_early_termination c1 st1))
           (fst (check_early_termination c2 st2))"
proof -
  have tc: "tool_calls (fst st1) = tool_calls (fst st2)"
    and fa: "final_answer (fst st1) = final_answer (fst st2)"
    using assms by (simp_all add: same_findings_def)
  show ?thesis
    by (simp add: check_early_termination_def Let_def tc fa sf_add_mistake assms)
qed

lemma sf_usage:
  assumes "same_findings (fst st1) (fst st2)"
  shows "same_findings (fst (check_tool_output_usage c1 st1))
           (fst (check_tool_output_usage c2 st2))"
proof -
  have tc: "tool_calls (fst st1) = tool_calls (fst st2)"
    and fa: "final_answer (fst st1) = final_answer (fst st2)"
    using assms by (simp_all add: same_findings_def)
  show ?thesis
    by (simp add: check_tool_output_usage_def Let_def tc fa sf_add_mistake assms)
qed

lemma sf_invocations:
  "same_findings t1 t2 \<Longrightarrow>
   same_findings (fold (extract_invocation messages) tcs t1)
     (fold (extract_invocation messages) tcs t2)"
  by (induction tcs arbitrary: t1 t2)
     (simp_all add: extract_invocation_def add_tool_call_def same_findings_def)

lemma sf_message:
  assumes "same_findings t1 t2"
  shows "same_findings (extract_message messages m t1) (extract_message messages m t2)"
proof (cases m)
  case (AIMessage content tcs)
  have "same_findings (set_final_answer a u1) (set_final_answer a u2)"
    if "same_findings u1 u2" for a u1 u2
    using that by (simp add: same_findings_def set_final_answer_def)
  then show ?thesis
    using assms sf_invocations [OF assms] by (simp add: AIMessage Let_def)
qed (simp_all add: assms)

lemma sf_fold_message:
  "same_findings t1 t2 \<Longrightarrow>
   same_findings (fold (extract_message messages) ms t1)
     (fold (extract_message messages) ms t2)"
  by (induction ms arbitrary: t1 t2) (simp_all add: sf_message)

lemma sf_evaluate:
  assumes "same_findings t1 t2"
  shows "same_findings (fst (evaluate c1 t1 messages n1)) (fst (evaluate c2 t2 messages n2))"
proof -
  have "same_findings (fst (extract_tool_calls messages t1, n1))
          (fst (extract_tool_calls messages t2, n2))"
    using sf_fold_message [OF assms] by (simp add: extract_tool_calls_def)
  then have "same_findings
      (fst (check_tool_output_usage c1 (check_early_termination c1 (check_tool_sequence c1
         (check_missing_required_tools c1 (extract_tool_calls messages t1, n1))))))
      (fst (check_tool_output_usage c2 (check_early_termination c2 (check_tool_sequence c2
         (check_missing_required_tools c2 (extract_tool_calls messages t2, n2))))))"
    by (intro sf_usage sf_early sf_sequence sf_required)
  then show ?thesis
    by (simp add: evaluate_def Let_def same_findings_def)
qed

text \<open>
  C3, as stated, fails. \<^verbatim>\<open>evaluate\<close> appends to the tool calls and to the mistakes the trace
  already has, so evaluating an already-evaluated trace with the same log that holds only
  a final answer leaves four mistakes where the first call left two, even under a clock
  that always gives the same reading.
\<close>

theorem reevaluate_counterexample:
  "length (mistakes (fst (evaluate fixed_clock trace0 log_answer_only 0))) = 2
   \<and> length (mistakes (fst (evaluate fixed_clock
        (fst (evaluate fixed_clock trace0 log_answer_only 0)) log_answer_only 2))) = 4
   \<and> mistakes (fst (evaluate fixed_clock
        (fst (evaluate fixed_clock trace0 log_answer_only 0)) log_answer_only 2))
     \<noteq> mistakes (fst (evaluate fixed_clock trace0 log_answer_only 0))"
  by code_simp

text \<open>
  C3, amended. Evaluating the same raw log on two freshly created traces, whatever their
  run ids, tasks and creation times and whatever the clock reads, gives mistake lists
  that agree in type, description and step, in the same order; only the detection
  timestamps, which are clock readings, may differ.
\<close>

theorem evaluate_fresh_traces_same_findings:
  "map finding (mistakes (fst (evaluate clk1 (init_trace r1 t1 s1) messages n1))) =
   map finding (mistakes (fst (evaluate clk2 (init_trace r2 t2 s2) messages n2)))"
proof -
  have "same_findings (init_trace r1 t1 s1) (init_trace r2 t2 s2)"
    by (simp add: same_findings_def init_trace_def)
  from sf_evaluate [OF this] show ?thesis
    by (simp add: same_findings_def)
qed

subsection \<open>Extraction of tool calls\<close>

lemma find_output_first_result: "find_output ms i = first_result ms i"
  by (induction ms i rule: find_output.induct) (simp_all add: first_result_def)

lemma outputs_fold_invocation:
  "map name_and_output (tool_calls (fold (extract_invocation messages) tcs tr)) =
     map name_and_output (tool_calls tr) @
     map (\<lambda>tc. (tc_name tc, first_result messages (tc_id tc))) tcs"
  by (induction tcs arbitrary: tr)
     (simp_all add: extract_invocation_def add_tool_call_def name_and_output_def
        find_output_first_result)

lemma outputs_extract_message:
  "map name_and_output (tool_calls (extract_message messages m tr)) =
     map name_and_output (tool_calls tr) @
     map (\<lambda>tc. (tc_name tc, first_result messages (tc_id tc))) (invocations_of m)"
  by (cases m) (simp_all add: Let_def set_final_answer_def outputs_fold_invocation)

lemma outputs_fold_message:
  "map name_and_output (tool_calls (fold (extract_message messages) ms tr)) =
     map name_and_output (tool_calls tr) @
     map (\<lambda>tc. (tc_name tc, first_result messages (tc_id tc))) (invocations ms)"
  by (induction ms arbitrary: tr) (simp_all add: invocations_def outputs_extract_message)

text \<open>
  C4, as stated, fails. The source looks for the output of an invocation from the start
  of the log, not from the assistant message on. In a log where two assistant messages
  use the same invocation id, each followed by its tool result, the second call gets the
  first result, where the first matching tool-result message after the second assistant
  message (position 3) holds another content.
\<close>

theorem first_subsequent_result_counterexample:
  "map tool_output (tool_calls (extract_tool_calls log_reused_id trace0)) = [''sunny'', ''sunny'']
   \<and> first_subsequent_result log_reused_id 3 (Some ''call_1'') = ''flight AB12''
   \<and> tool_output (tool_calls (extract_tool_calls log_reused_id trace0) ! 1)
       \<noteq> first_subsequent_result log_reused_id 3 (Some ''call_1'')"
  by code_simp

text \<open>
  C4, amended. For every raw message log and every tool invocation carried by an
  assistant message in it, the output of the extracted tool call is the content of the
  first tool-result message of the whole log, from its start, whose correlation id
  matches the id of the invocation, and the empty string when the log holds no such
  message. Extraction is total: it has no failing branch.
\<close>

theorem extracted_output_first_result_in_log:
  "map name_and_output (tool_calls (extract_tool_calls messages tr)) =
     map name_and_output (tool_calls tr) @
     map (\<lambda>tc. (tc_name tc, first_result messages (tc_id tc))) (invocations messages)
   \<and> (\<not> list_ex (is_result_for i) messages \<longrightarrow> first_result messages i = [])"
proof -
  have "first_result messages i = []" if "\<not> list_ex (is_result_for i) messages"
    using that by (induction messages) (simp_all add: first_result_def)
  then show ?thesis
    by (simp add: extract_tool_calls_def outputs_fold_message)
qed

theorem extracted_output_first_result_in_log_witness:
  "\<not> list_ex (is_result_for (Some ''call_1'')) log_no_result
   \<and> map name_and_output (tool_calls (extract_tool_calls log_no_result trace0)) =
       [(''check_weather'', [])]"
proof -
  have h: "\<not> list_ex (is_result_for (Some ''call_1'')) log_no_result"
    by (simp add: log_no_result_def)
  have inv: "invocations log_no_result =
      [\<lparr>tc_name = ''check_weather'', tc_args = None, tc_id = Some ''call_1''\<rparr>]"
    by (simp add: log_no_result_def invocations_def)
  have t: "tool_calls trace0 = []"
    by (simp add: trace0_def init_trace_def)
  show ?thesis
    using extracted_output_first_result_in_log [of log_no_result trace0 "Some ''call_1''"] h
    by (simp add: inv t)
qed

subsection \<open>The sequence check\<close>

text \<open>
  C5. For a trace whose tool-call names are search_flights, check_weather,
  recommend_hotels, create_itinerary, the sequence check adds exactly one mistake: the
  wrong_sequence mistake of the weather sub-check, with step 2. The hotels-before-flights
  sub-check and the itinerary-not-last sub-check leave the trace as it is.
\<close>

theorem scenario_C_sequence_check:
  assumes "tools_used tr =
    [''search_flights'', ''check_weather'', ''recommend_hotels'', ''create_itinerary'']"
  shows "check_tool_sequence clk (tr, n) =
           add_mistake clk WRONG_SEQUENCE ''Weather should be checked before other tools''
             (Some 2) (tr, n)
         \<and> check_hotels_before_flights clk (tools_used tr) (tr, n) = (tr, n)
         \<and> check_itinerary_last clk (tools_used tr) (tr, n) = (tr, n)"
proof -
  have len: "length (tool_calls tr) = 4"
    using arg_cong [OF assms, of length] by (simp add: tools_used_def)
  have h: "check_hotels_before_flights clk (tools_used tr) (tr, n) = (tr, n)"
    by (simp add: assms check_hotels_before_flights_def index_def)
  have i: "check_itinerary_last clk (tools_used tr) (tr, n) = (tr, n)"
    by (simp add: assms check_itinerary_last_def index_def)
  have w: "check_weather_first clk (tools_used tr) (tr, n) =
      add_mistake clk WRONG_SEQUENCE ''Weather should be checked before other tools''
        (Some 2) (tr, n)"
    by (simp add: assms check_weather_first_def index_def)
  show ?thesis
    using h i w by (simp add: check_tool_sequence_def len Let_def)
qed

theorem scenario_C_sequence_check_witness:
  "tools_used trace_scenario_C =
     [''search_flights'', ''check_weather'', ''recommend_hotels'', ''create_itinerary'']
   \<and> mistakes (fst (check_tool_sequence fixed_clock (trace_scenario_C, 0))) =
       [\<lparr>mistake_type = ''wrong_sequence'',
         description = ''Weather should be checked before other tools'',
         step = Some 2, mistake_timestamp = ''2025-01-01T00:00:01''\<rparr>]"
proof -
  have t: "tools_used trace_scenario_C =
      [''search_flights'', ''check_weather'', ''recommend_hotels'', ''create_itinerary'']"
    by (simp add: trace_scenario_C_def trace0_def tools_used_def add_tool_call_def
        init_trace_def)
  have m: "mistakes trace_scenario_C = []"
    by (simp add: trace_scenario_C_def trace0_def add_tool_call_def init_trace_def)
  show ?thesis
    using scenario_C_sequence_check [OF t, of fixed_clock 0] t m
    by (simp add: WRONG_SEQUENCE_def fixed_clock_def)
qed

subsection \<open>The kinds of mistake the evaluator records\<close>

lemma appends_refl: "appends P st st"
  by (simp add: appends_def)

lemma appends_trans: "appends P a b \<Longrightarrow> appends P b c \<Longrightarrow> appends P a c"
  by (auto simp: appends_def)

lemma appends_add_mistake:
  "P \<lparr>mistake_type = ty, description = d, step = s, mistake_timestamp = clk (snd st)\<rparr>
   \<Longrightarrow> appends P st (add_mistake clk ty d s st)"
  by (cases st) (simp add: appends_def)

lemma key_kind_of_kind:
  "key_kind (MISSING_REQUIRED_TOOL @ CHR '':'' # d) = Some MISSING_REQUIRED_TOOL"
  "key_kind (WRONG_SEQUENCE @ CHR '':'' # d) = Some WRONG_SEQUENCE"
  "key_kind (TOO_EARLY_ANSWER @ CHR '':'' # d) = Some TOO_EARLY_ANSWER"
  "key_kind (IGNORED_TOOL_OUTPUT @ CHR '':'' # d) = Some IGNORED_TOOL_OUTPUT"
  by (simp_all add: key_kind_def split_key_def kinds)

lemma not_wrong_tool_kind:
  "not_wrong_tool \<lparr>mistake_type = MISSING_REQUIRED_TOOL, description = d, step = s,
                   mistake_timestamp = t\<rparr>"
  "not_wrong_tool \<lparr>mistake_type = WRONG_SEQUENCE, description = d, step = s,
                   mistake_timestamp = t\<rparr>"
  "not_wrong_tool \<lparr>mistake_type = TOO_EARLY_ANSWER, description = d, step = s,
                   mistake_timestamp = t\<rparr>"
  "not_wrong_tool \<lparr>mistake_type = IGNORED_TOOL_OUTPUT, description = d, step = s,
                   mistake_timestamp = t\<rparr>"
  by (simp_all add: not_wrong_tool_def pattern_key_of_def key_kind_of_kind)
     (simp_all add: kinds)

lemma appends_required: "appends not_wrong_tool st (check_missing_required_tools clk st)"
  by (simp add: check_missing_required_tools_def REQUIRED_TOOLS_def check_required_tool_def
      Let_def appends_refl appends_add_mistake not_wrong_tool_kind)

lemma appends_hotels: "appends not_wrong_tool st (check_hotels_before_flights clk used st)"
  by (simp add: check_hotels_before_flights_def
      Let_def appends_refl appends_add_mistake not_wrong_tool_kind)

lemma appends_itinerary: "appends not_wrong_tool st (check_itinerary_last clk used st)"
  by (simp add: check_itinerary_last_def
      Let_def appends_refl appends_add_mistake not_wrong_tool_kind)

lemma appends_weather: "appends not_wrong_tool st (check_weather_first clk used st)"
  by (simp add: check_weather_first_def
      Let_def appends_refl appends_add_mistake not_wrong_tool_kind)

lemma appends_sequence: "appends not_wrong_tool st (check_tool_sequence clk st)"
proof (cases "length (tool_calls (fst st)) < 2")
  case True
  then show ?thesis by (simp add: check_tool_sequence_def appends_refl)
next
  case False
  have "appends not_wrong_tool st
     (check_weather_first clk used (check_itinerary_last clk used
        (check_hotels_before_flights clk used st)))" for used
    by (rule appends_trans [OF appends_trans [OF appends_hotels appends_itinerary]
          appends_weather])
  with False show ?thesis by (simp add: check_tool_sequence_def Let_def)
qed

lemma appends_early: "appends not_wrong_tool st (check_early_termination clk st)"
  by (simp add: check_early_termination_def
      Let_def appends_refl appends_add_mistake not_wrong_tool_kind)

lemma appends_usage: "appends not_wrong_tool st (check_tool_output_usage clk st)"
  by (simp add: check_tool_output_usage_def
      Let_def appends_refl appends_add_mistake not_wrong_tool_kind)

lemma appends_checks:
  "appends not_wrong_tool st
     (check_tool_output_usage clk (check_early_termination clk
        (check_tool_sequence clk (check_missing_required_tools clk st))))"
  by (rule appends_trans [OF appends_trans [OF appends_trans
        [OF appends_required appends_sequence] appends_early] appends_usage])

lemma mistakes_extract_invocations:
  "mistakes (fold (extract_invocation messages) tcs tr) = mistakes tr"
  by (induction tcs arbitrary: tr) (simp_all add: extract_invocation_def add_tool_call_def)

lemma mistakes_extract_message: "mistakes (extract_message messages m tr) = mistakes tr"
  by (cases m) (simp_all add: Let_def set_final_answer_def mistakes_extract_invocations)

lemma mistakes_fold_extract:
  "mistakes (fold (extract_message messages) ms tr) = mistakes tr"
  by (induction ms arbitrary: tr) (simp_all add: mistakes_extract_message)

lemma mistakes_extract_tool_calls: "mistakes (extract_tool_calls messages tr) = mistakes tr"
  by (simp add: extract_tool_calls_def mistakes_fold_extract)

lemma evaluate_appends:
  "\<exists>new. mistakes (fst (evaluate clk trace messages n)) = mistakes trace @ new
         \<and> list_all not_wrong_tool new"
  using appends_checks [of "(extract_tool_calls messages trace, n)" clk]
  by (auto simp: appends_def evaluate_def Let_def mistakes_extract_tool_calls)

lemma evaluate_run_not_wrong_tool: "list_all not_wrong_tool (mistakes (evaluate_run clk run))"
proof -
  obtain rid tsk ts messages n where run: "run = (rid, tsk, ts, messages, n)"
    by (cases run)
  show ?thesis
    using evaluate_appends [of clk "init_trace rid tsk ts" messages n]
    by (auto simp: run init_trace_def)
qed

section \<open>Properties of the memory store\<close>

lemma learn_loop_run_counter:
  "learn_loop clk ps s n = (s', n', e) \<Longrightarrow> run_counter s' = run_counter s"
  by (induction ps arbitrary: s n) (auto split: option.splits if_splits simp: Let_def)

lemma save_trace_run_counter:
  "run_counter (store (fst (save_trace clk trace w))) = run_counter (store w)"
  by (auto simp: save_trace_def Let_def learn_from_patterns_def
      split: prod.splits option.splits dest: learn_loop_run_counter)

lemma run_call_run_counter:
  "run_counter (store (run_call clk c w)) =
     run_counter (store w) + (if is_create c then 1 else 0)"
  by (cases c) (simp_all add: save_trace_run_counter create_trace_def Let_def)

lemma fold_run_call_run_counter:
  "run_counter (store (fold (run_call clk) calls w)) =
     run_counter (store w) + int (length (filter is_create calls))"
  by (induction calls arbitrary: w) (simp_all add: run_call_run_counter)

text \<open>
  C6. For every store, the document that \<^verbatim>\<open>_save\<close> writes, loaded by a fresh store,
  gives the same constraints in the same order, and so the same
  \<^verbatim>\<open>get_active_constraints()\<close>.
\<close>

theorem constraints_round_trip:
  "get_active_constraints (new_store (Some (save s))) = get_active_constraints s
   \<and> learned_constraints (new_store (Some (save s))) = learned_constraints s"
  by (simp add: get_active_constraints_def new_store_def load_def save_def default_def)

text \<open>
  C8. After any sequence of \<^verbatim>\<open>create_trace\<close> and \<^verbatim>\<open>save_trace\<close> calls, \<^verbatim>\<open>run_counter\<close> is
  its initial value plus the number of \<^verbatim>\<open>create_trace\<close> calls, whatever is saved; in
  particular after N calls of \<^verbatim>\<open>create_trace\<close> it is the initial value plus N, and each
  single call shows the increment at once.
\<close>

theorem run_counter_counts_create_trace:
  "run_counter (store (run_calls clk calls w)) =
     run_counter (store w) + int (length (filter is_create calls))
   \<and> run_counter (store (run_calls clk (map CreateTrace tasks) w)) =
       run_counter (store w) + int (length tasks)
   \<and> run_counter (store (snd (create_trace clk tsk w))) = run_counter (store w) + 1"
proof -
  have "filter is_create (map CreateTrace tasks) = map CreateTrace tasks"
    by (induction tasks) simp_all
  then show ?thesis
    using fold_run_call_run_counter [of clk "map CreateTrace tasks" w]
    by (simp add: run_calls_def fold_run_call_run_counter create_trace_def Let_def)
qed

text \<open>
  C9. A trace returned by \<^verbatim>\<open>create_trace\<close> has no tool calls, no mistakes, an empty
  final answer and \<^verbatim>\<open>success = False\<close>: before evaluation its success flag is false
  although its mistake list is empty.
\<close>

theorem create_trace_fresh:
  "tool_calls (fst (create_trace clk tsk w)) = []
   \<and> mistakes (fst (create_trace clk tsk w)) = []
   \<and> final_answer (fst (create_trace clk tsk w)) = []
   \<and> success (fst (create_trace clk tsk w)) = False
   \<and> run_id (fst (create_trace clk tsk w)) = run_counter (store w) + 1
   \<and> success (fst (create_trace clk tsk w)) \<noteq> (mistakes (fst (create_trace clk tsk w)) = [])"
  by (simp add: create_trace_def init_trace_def Let_def)

subsection \<open>The learning pass\<close>

lemma learned_from_refl: "learned_from ps old old"
  by (simp add: learned_from_def keys_of_def)

lemma learned_from_Cons:
  assumes "learned_from ps (old @ [c]) cs" "pattern_key c \<notin> set (keys_of old)"
    "(pattern_key c, occurrences c) \<in> set qs" "2 \<le> occurrences c" "set ps \<subseteq> set qs"
    "constraint_text_for (pattern_key c) (occurrences c) = Some (constraint c)"
  shows "learned_from qs old cs"
proof -
  obtain new where n: "cs = (old @ [c]) @ new" "distinct (keys_of new)"
    "set (keys_of new) \<inter> set (keys_of (old @ [c])) = {}"
    "list_all (\<lambda>c. (pattern_key c, occurrences c) \<in> set ps \<and> 2 \<le> occurrences c
                    \<and> constraint_text_for (pattern_key c) (occurrences c)
                        = Some (constraint c)) new"
    using assms(1) by (auto simp: learned_from_def)
  have "cs = old @ (c # new)" using n(1) by simp
  moreover have "distinct (keys_of (c # new))"
    using n(2,3) by (auto simp: keys_of_def)
  moreover have "set (keys_of (c # new)) \<inter> set (keys_of old) = {}"
    using n(3) assms(2) by (auto simp: keys_of_def)
  moreover have "list_all (\<lambda>c. (pattern_key c, occurrences c) \<in> set qs \<and> 2 \<le> occurrences c
                    \<and> constraint_text_for (pattern_key c) (occurrences c)
                        = Some (constraint c)) (c # new)"
    using n(4) assms(3,4,5,6) by (auto simp: list_all_iff)
  ultimately show ?thesis
    unfolding learned_from_def by blast
qed

lemma learned_from_mono: "learned_from ps old cs \<Longrightarrow> set ps \<subseteq> set qs \<Longrightarrow> learned_from qs old cs"
  by (auto simp: learned_from_def list_all_iff)

lemma learn_loop_learned_from:
  "learn_loop clk ps s n = (s', n', e) \<Longrightarrow>
   learned_from ps (learned_constraints s) (learned_constraints s')"
proof (induction ps arbitrary: s n)
  case Nil
  then show ?case by (simp add: learned_from_refl)
next
  case (Cons p ps)
  obtain key count where p: "p = (key, count)" by (cases p)
  have sub: "set ps \<subseteq> set (p # ps)" by auto
  show ?case
  proof (cases "count \<ge> 2")
    case False
    then have "learn_loop clk ps s n = (s', n', e)"
      using Cons.prems p by simp
    from learned_from_mono [OF Cons.IH [OF this] sub] show ?thesis .
  next
    case ge: True
    show ?thesis
    proof (cases "split_key key")
      case None
      then have "s' = s" using Cons.prems p ge by simp
      then show ?thesis by (simp add: learned_from_refl)
    next
      case (Some td)
      obtain ty desc where sk: "split_key key = Some (ty, desc)"
        using Some by (cases td) simp
      show ?thesis
      proof (cases "list_ex (\<lambda>c. pattern_key c = key) (learned_constraints s)")
        case True
        then have "learn_loop clk ps s n = (s', n', e)"
          using Cons.prems p ge sk by (simp add: Let_def)
        from learned_from_mono [OF Cons.IH [OF this] sub] show ?thesis .
      next
        case nex: False
        show ?thesis
        proof (cases "create_constraint ty desc count")
          case no_text: None
          then have "learn_loop clk ps s n = (s', n', e)"
            using Cons.prems p ge sk nex by (simp add: Let_def)
          from learned_from_mono [OF Cons.IH [OF this] sub] show ?thesis .
        next
          case cc: (Some ctext)
          show ?thesis
          proof (cases "ctext = []")
            case True
            then have "learn_loop clk ps s n = (s', n', e)"
              using Cons.prems p ge sk nex cc by (simp add: Let_def)
            from learned_from_mono [OF Cons.IH [OF this] sub] show ?thesis .
          next
            case False
            define c where "c = \<lparr>pattern_key = key, constraint = ctext,
                                  occurrences = count, created_at = clk n\<rparr>"
            have "learn_loop clk ps (s\<lparr>learned_constraints := learned_constraints s @ [c]\<rparr>) (Suc n)
                    = (s', n', e)"
              using Cons.prems p ge sk nex cc False
              by (simp add: Let_def c_def)
            from Cons.IH [OF this]
            have "learned_from ps (learned_constraints s @ [c]) (learned_constraints s')"
              by simp
            moreover have "pattern_key c \<notin> set (keys_of (learned_constraints s))"
              using nex by (auto simp: c_def keys_of_def list_ex_iff)
            moreover have "(pattern_key c, occurrences c) \<in> set (p # ps)"
              by (simp add: c_def p)
            moreover have "2 \<le> occurrences c" using ge by (simp add: c_def)
            moreover have "constraint_text_for (pattern_key c) (occurrences c)
                = Some (constraint c)"
              using sk cc by (simp add: c_def constraint_text_for_def)
            ultimately show ?thesis
              using learned_from_Cons sub by blast
          qed
        qed
      qed
    qed
  qed
qed

lemma learn_loop_patterns:
  "learn_loop clk ps s n = (s', n', e) \<Longrightarrow> mistake_patterns s' = mistake_patterns s"
  by (induction ps arbitrary: s n) (auto split: option.splits if_splits simp: Let_def)

lemma save_trace_patterns:
  "mistake_patterns (store (fst (save_trace clk trace w))) = counted trace (store w)"
  by (auto simp: save_trace_def Let_def learn_from_patterns_def counted_def
      split: prod.splits option.splits dest: learn_loop_patterns)

lemma save_trace_learned_from:
  "learned_from (mistake_patterns (store (fst (save_trace clk trace w))))
     (learned_constraints (store w))
     (learned_constraints (store (fst (save_trace clk trace w))))"
proof -
  define s2 where "s2 = (store w)\<lparr>execution_history := execution_history (store w) @ [trace],
      mistake_patterns := counted trace (store w)\<rparr>"
  obtain s3 n e where l: "learn_loop clk (mistake_patterns s2) s2 (ticks w) = (s3, n, e)"
    by (cases "learn_loop clk (mistake_patterns s2) s2 (ticks w)")
  have s3: "store (fst (save_trace clk trace w)) = s3"
    using l by (cases e) (simp_all add: save_trace_def Let_def learn_from_patterns_def
        s2_def counted_def)
  have "learned_from (mistake_patterns s2) (learned_constraints s2) (learned_constraints s3)"
    by (rule learn_loop_learned_from [OF l])
  moreover have "mistake_patterns s3 = mistake_patterns s2"
    by (rule learn_loop_patterns [OF l])
  moreover have "learned_constraints s2 = learned_constraints (store w)"
    by (simp add: s2_def)
  ultimately show ?thesis
    by (simp add: s3)
qed

lemma adds_fresh_keys_refl: "adds_fresh_keys old old"
  by (simp add: adds_fresh_keys_def keys_of_def)

lemma adds_fresh_keys_trans:
  assumes "adds_fresh_keys a b" "adds_fresh_keys b c"
  shows "adds_fresh_keys a c"
proof -
  obtain n1 where 1: "b = a @ n1" "distinct (keys_of n1)" "set (keys_of n1) \<inter> set (keys_of a) = {}"
    using assms(1) by (auto simp: adds_fresh_keys_def)
  obtain n2 where 2: "c = b @ n2" "distinct (keys_of n2)" "set (keys_of n2) \<inter> set (keys_of b) = {}"
    using assms(2) by (auto simp: adds_fresh_keys_def)
  have "c = a @ (n1 @ n2)" using 1 2 by simp
  moreover have "distinct (keys_of (n1 @ n2))"
    using 1 2 by (auto simp: keys_of_def)
  moreover have "set (keys_of (n1 @ n2)) \<inter> set (keys_of a) = {}"
    using 1 2 by (auto simp: keys_of_def)
  ultimately show ?thesis
    unfolding adds_fresh_keys_def by blast
qed

lemma learned_from_adds: "learned_from ps old cs \<Longrightarrow> adds_fresh_keys old cs"
  by (auto simp: learned_from_def adds_fresh_keys_def)

lemma fold_save_adds_fresh_keys:
  "adds_fresh_keys (learned_constraints (store w))
     (learned_constraints (store (fold (\<lambda>trace w. fst (save_trace clk trace w)) traces w)))"
proof (induction traces arbitrary: w)
  case Nil
  then show ?case by (simp add: adds_fresh_keys_refl)
next
  case (Cons t ts)
  have "adds_fresh_keys (learned_constraints (store w))
          (learned_constraints (store (fst (save_trace clk t w))))"
    by (rule learned_from_adds [OF save_trace_learned_from])
  from adds_fresh_keys_trans [OF this Cons.IH] show ?case by simp
qed

lemma save_all_adds_fresh_keys:
  "adds_fresh_keys (learned_constraints (store w))
     (learned_constraints (store (save_all clk traces w)))"
  by (simp add: save_all_def fold_save_adds_fresh_keys)

lemma adds_fresh_keys_distinct:
  assumes "adds_fresh_keys old cs" "distinct (keys_of old)"
  shows "distinct (keys_of cs)"
proof -
  obtain new where n: "cs = old @ new" "distinct (keys_of new)"
    "set (keys_of new) \<inter> set (keys_of old) = {}"
    using assms(1) by (auto simp: adds_fresh_keys_def)
  have "keys_of cs = keys_of old @ keys_of new"
    by (simp add: n(1) keys_of_def)
  moreover have "set (keys_of old) \<inter> set (keys_of new) = {}"
    using n(3) by blast
  ultimately show ?thesis
    using assms(2) n(2) by simp
qed

lemma adds_fresh_keys_filter:
  "adds_fresh_keys old cs \<Longrightarrow> k \<in> set (keys_of old) \<Longrightarrow>
   filter (\<lambda>c. pattern_key c = k) cs = filter (\<lambda>c. pattern_key c = k) old"
proof -
  assume a: "adds_fresh_keys old cs" and k: "k \<in> set (keys_of old)"
  obtain new where n: "cs = old @ new" "set (keys_of new) \<inter> set (keys_of old) = {}"
    using a by (auto simp: adds_fresh_keys_def)
  have "filter (\<lambda>c. pattern_key c = k) new = []"
    using n(2) k by (auto simp: keys_of_def filter_empty_conv)
  then show ?thesis by (simp add: n(1))
qed


lemma create_constraint_nonempty: "create_constraint ty desc c = Some t \<Longrightarrow> t \<noteq> []"
  by (auto simp: create_constraint_def split: option.splits)

lemma learn_loop_step:
  assumes "learn_loop clk ((key, count) # ps) s n = (s', n', None)"
  shows "\<exists>s1 n1. learn_loop clk ps s1 n1 = (s', n', None)
           \<and> set (keys_of (learned_constraints s)) \<subseteq> set (keys_of (learned_constraints s1))
           \<and> (2 \<le> count \<and> split_key key = Some (ty, desc)
                \<and> create_constraint ty desc count \<noteq> None
              \<longrightarrow> key \<in> set (keys_of (learned_constraints s1)))"
proof (cases "2 \<le> count")
  case False
  then show ?thesis using assms by auto
next
  case ge: True
  show ?thesis
  proof (cases "split_key key")
    case None
    then show ?thesis using assms ge by simp
  next
    case (Some td)
    obtain ty' desc' where sk: "split_key key = Some (ty', desc')"
      using Some by (cases td) simp
    show ?thesis
    proof (cases "list_ex (\<lambda>c. pattern_key c = key) (learned_constraints s)")
      case True
      then have "learn_loop clk ps s n = (s', n', None)"
        using assms ge sk by (simp add: Let_def)
      moreover have "key \<in> set (keys_of (learned_constraints s))"
        using True by (auto simp: keys_of_def list_ex_iff)
      ultimately show ?thesis by blast
    next
      case nex: False
      show ?thesis
      proof (cases "create_constraint ty' desc' count")
        case no_text: None
        then have "learn_loop clk ps s n = (s', n', None)"
          using assms ge sk nex by (simp add: Let_def)
        then show ?thesis using sk no_text by auto
      next
        case cc: (Some ctext)
        have ne: "ctext \<noteq> []" by (rule create_constraint_nonempty [OF cc])
        define c where "c = \<lparr>pattern_key = key, constraint = ctext,
                              occurrences = count, created_at = clk n\<rparr>"
        have "learn_loop clk ps (s\<lparr>learned_constraints := learned_constraints s @ [c]\<rparr>) (Suc n)
                = (s', n', None)"
          using assms ge sk nex cc ne by (simp add: Let_def c_def)
        moreover have "key \<in> set (keys_of (learned_constraints
              (s\<lparr>learned_constraints := learned_constraints s @ [c]\<rparr>)))"
          by (simp add: keys_of_def c_def)
        moreover have "set (keys_of (learned_constraints s)) \<subseteq> set (keys_of (learned_constraints
              (s\<lparr>learned_constraints := learned_constraints s @ [c]\<rparr>)))"
          by (auto simp: keys_of_def)
        ultimately show ?thesis by blast
      qed
    qed
  qed
qed

lemma learned_from_keys_mono:
  "learned_from ps old cs \<Longrightarrow> set (keys_of old) \<subseteq> set (keys_of cs)"
  by (auto simp: learned_from_def keys_of_def)

lemma learn_loop_complete:
  "learn_loop clk ps s n = (s', n', None) \<Longrightarrow> (k, c) \<in> set ps \<Longrightarrow> 2 \<le> c \<Longrightarrow>
   split_key k = Some (ty, desc) \<Longrightarrow> create_constraint ty desc c \<noteq> None \<Longrightarrow>
   k \<in> set (keys_of (learned_constraints s'))"
proof (induction ps arbitrary: s n)
  case Nil
  then show ?case by simp
next
  case (Cons p ps)
  obtain key count where p: "p = (key, count)" by (cases p)
  obtain s1 n1 where l1: "learn_loop clk ps s1 n1 = (s', n', None)"
    and here: "2 \<le> count \<and> split_key key = Some (ty, desc)
                \<and> create_constraint ty desc count \<noteq> None
              \<longrightarrow> key \<in> set (keys_of (learned_constraints s1))"
    using learn_loop_step [of clk key count ps s n s' n' ty desc] Cons.prems(1) p by blast
  show ?case
  proof (cases "(k, c) = p")
    case True
    then have "k \<in> set (keys_of (learned_constraints s1))"
      using here p Cons.prems by auto
    then show ?thesis
      using learned_from_keys_mono [OF learn_loop_learned_from [OF l1]] by blast
  next
    case False
    then have "(k, c) \<in> set ps" using Cons.prems(2) by auto
    from Cons.IH [OF l1 this Cons.prems(3,4,5)] show ?thesis .
  qed
qed

lemma bump_keys: "fst ` set (bump k ps) = insert k (fst ` set ps)"
proof (induction ps)
  case Nil
  then show ?case by simp
next
  case (Cons p ps)
  obtain k' c where p: "p = (k', c)" by (cases p)
  show ?case
  proof (cases "k' = k")
    case True
    then show ?thesis by (simp add: p)
  next
    case False
    then show ?thesis using Cons.IH by (simp add: p insert_commute)
  qed
qed

lemma bump_distinct: "distinct (map fst ps) \<Longrightarrow> distinct (map fst (bump k ps))"
proof (induction ps)
  case Nil
  then show ?case by simp
next
  case (Cons p ps)
  obtain k' c where p: "p = (k', c)" by (cases p)
  show ?case
  proof (cases "k' = k")
    case True
    then show ?thesis using Cons.prems by (simp add: p)
  next
    case False
    have "k' \<notin> fst ` set (bump k ps)"
      using Cons.prems False by (simp add: p bump_keys)
    then show ?thesis using Cons False by (simp add: p)
  qed
qed

lemma fold_bump_distinct:
  "distinct (map fst ps) \<Longrightarrow> distinct (map fst (fold (\<lambda>m. bump (pattern_key_of m)) ms ps))"
  by (induction ms arbitrary: ps) (simp_all add: bump_distinct)

lemma filter_distinct_key:
  "distinct (map f xs) \<Longrightarrow> x \<in> set xs \<Longrightarrow> filter (\<lambda>y. f y = f x) xs = [x]"
proof (induction xs)
  case Nil
  then show ?case by simp
next
  case (Cons a xs)
  show ?case
  proof (cases "a = x")
    case True
    have "f x \<notin> f ` set xs"
      using Cons.prems(1) True by simp
    then have "filter (\<lambda>y. f y = f x) xs = []"
      unfolding filter_empty_conv by (metis imageI)
    then show ?thesis using True by simp
  next
    case False
    then have "x \<in> set xs" using Cons.prems(2) by simp
    moreover have "f a \<noteq> f x" using Cons.prems(1) \<open>x \<in> set xs\<close> by auto
    ultimately show ?thesis using Cons by simp
  qed
qed

lemma save_trace_no_error:
  assumes "snd (save_trace clk trace w) = None"
  shows "\<exists>n. learn_loop clk (counted trace (store w))
           ((store w)\<lparr>execution_history := execution_history (store w) @ [trace],
                      mistake_patterns := counted trace (store w)\<rparr>) (ticks w)
         = (store (fst (save_trace clk trace w)), n, None)"
proof -
  define s2 where "s2 = (store w)\<lparr>execution_history := execution_history (store w) @ [trace],
      mistake_patterns := counted trace (store w)\<rparr>"
  obtain s3 n e where l: "learn_loop clk (counted trace (store w)) s2 (ticks w) = (s3, n, e)"
    by (cases "learn_loop clk (counted trace (store w)) s2 (ticks w)")
  have "e = None \<and> store (fst (save_trace clk trace w)) = s3"
    using l assms by (cases e) (simp_all add: save_trace_def Let_def learn_from_patterns_def
        s2_def counted_def)
  then show ?thesis using l by (auto simp: s2_def)
qed

lemma first_crossing:
  assumes d: "distinct (map fst (mistake_patterns (store w)))"
    and nk: "k \<notin> set (keys_of (learned_constraints (store w)))"
    and sv: "snd (save_trace clk t1 w) = None"
    and cnt: "(k, c) \<in> set (mistake_patterns (store (fst (save_trace clk t1 w))))"
    and ge: "2 \<le> c"
    and sk: "split_key k = Some (ty, desc)"
    and cc: "create_constraint ty desc c = Some ctext"
  shows "map (\<lambda>x. (occurrences x, constraint x)) (filter (\<lambda>x. pattern_key x = k)
           (learned_constraints (store (save_all clk traces (fst (save_trace clk t1 w))))))
         = [(c, ctext)]"
proof -
  define w1 where "w1 = fst (save_trace clk t1 w)"
  have pat: "mistake_patterns (store w1) = counted t1 (store w)"
    by (simp add: w1_def save_trace_patterns)
  have d1: "distinct (map fst (mistake_patterns (store w1)))"
    using d by (simp add: pat counted_def fold_bump_distinct)
  obtain n where l: "learn_loop clk (counted t1 (store w))
           ((store w)\<lparr>execution_history := execution_history (store w) @ [t1],
                      mistake_patterns := counted t1 (store w)\<rparr>) (ticks w)
         = (store w1, n, None)"
    using save_trace_no_error [OF sv] by (auto simp: w1_def)
  have "(k, c) \<in> set (counted t1 (store w))"
    using cnt by (simp add: w1_def [symmetric] pat)
  from learn_loop_complete [OF l this ge sk] cc
  have kin: "k \<in> set (keys_of (learned_constraints (store w1)))" by simp
  obtain new where new: "learned_constraints (store w1) = learned_constraints (store w) @ new"
      "distinct (keys_of new)"
      "list_all (\<lambda>x. (pattern_key x, occurrences x) \<in> set (mistake_patterns (store w1))
                    \<and> 2 \<le> occurrences x
                    \<and> constraint_text_for (pattern_key x) (occurrences x)
                        = Some (constraint x)) new"
    using save_trace_learned_from [of clk t1 w] by (auto simp: learned_from_def w1_def)
  obtain x where x: "x \<in> set new" "pattern_key x = k"
    using kin nk new(1) by (auto simp: keys_of_def)
  have "(k, occurrences x) \<in> set (mistake_patterns (store w1))"
    using new(3) x by (auto simp: list_all_iff)
  then have occ: "occurrences x = c"
    using d1 cnt by (metis eq_key_imp_eq_value w1_def)
  have "constraint_text_for k (occurrences x) = Some (constraint x)"
    using new(3) x by (auto simp: list_all_iff)
  then have same_text: "constraint x = ctext"
    using occ sk cc by (simp add: constraint_text_for_def)
  have "filter (\<lambda>y. pattern_key y = k) (learned_constraints (store w)) = []"
    using nk by (auto simp: keys_of_def filter_empty_conv)
  moreover have "filter (\<lambda>y. pattern_key y = pattern_key x) new = [x]"
    using filter_distinct_key [of pattern_key new x] new(2) x(1) by (simp add: keys_of_def)
  ultimately have f1: "filter (\<lambda>y. pattern_key y = k) (learned_constraints (store w1)) = [x]"
    using x(2) new(1) by simp
  have "filter (\<lambda>y. pattern_key y = k) (learned_constraints (store (save_all clk traces w1)))
        = filter (\<lambda>y. pattern_key y = k) (learned_constraints (store w1))"
    by (rule adds_fresh_keys_filter [OF save_all_adds_fresh_keys kin])
  then show ?thesis
    using f1 occ same_text by (simp add: w1_def)
qed


text \<open>
  C2, as stated, fails. The learning pass runs once at the end of \<^verbatim>\<open>save_trace\<close>, after
  all the mistakes of the trace have been counted. Saving, into a store created with no
  file, one trace that carries the same mistake three times takes the count of its key
  from 0 across the threshold to 3, and the constraint that is created records 3
  occurrences, not 2.
\<close>

theorem occurrences_above_two_counterexample:
  "mistake_patterns (store empty_world) = []
   \<and> snd (save_trace fixed_clock (trace_with 3) empty_world) = None
   \<and> mistake_patterns (store (fst (save_trace fixed_clock (trace_with 3) empty_world)))
       = [(weather_key, 3)]
   \<and> map occurrences (filter (\<lambda>x. pattern_key x = weather_key)
         (learned_constraints (store
            (fst (save_trace fixed_clock (trace_with 3) empty_world))))) = [3]
   \<and> map occurrences (filter (\<lambda>x. pattern_key x = weather_key)
         (learned_constraints (store
            (fst (save_trace fixed_clock (trace_with 3) empty_world))))) \<noteq> [2]"
  by code_simp

text \<open>
  C2, amended. Every \<^verbatim>\<open>save_trace\<close> call only appends constraints to those the store has:
  none for a pattern key that already has a constraint, at most one for any key, each
  with \<open>occurrences\<close> equal to the count its key has in the pattern table at the end of
  that call, which is at least 2, and with the text synthesised for that count. Hence
  over any sequence of \<^verbatim>\<open>save_trace\<close> calls at most one constraint is ever created for
  a key and no existing constraint changes. When a key without a constraint, of a kind
  that has a template, has the count \<open>c \<ge> 2\<close> at the end of a \<^verbatim>\<open>save_trace\<close> call that
  returns, then after any later \<^verbatim>\<open>save_trace\<close> calls exactly one constraint has that key,
  with \<open>occurrences = c\<close> and the text for \<open>c\<close>: the count of the call of the first
  threshold crossing (2 when that call leaves the count at 2, as in the scenario where
  the count goes to 2 and then to 5), never a later value.
\<close>

theorem constraint_created_once_and_frozen:
  "learned_from (mistake_patterns (store (fst (save_trace clk trace w))))
     (learned_constraints (store w))
     (learned_constraints (store (fst (save_trace clk trace w))))
   \<and> adds_fresh_keys (learned_constraints (store w))
        (learned_constraints (store (save_all clk traces w)))
   \<and> (distinct (keys_of (learned_constraints (store w))) \<longrightarrow>
        distinct (keys_of (learned_constraints (store (save_all clk traces w)))))
   \<and> (distinct (map fst (mistake_patterns (store w0)))
        \<and> k \<notin> set (keys_of (learned_constraints (store w0)))
        \<and> snd (save_trace clk t1 w0) = None
        \<and> (k, c) \<in> set (mistake_patterns (store (fst (save_trace clk t1 w0))))
        \<and> 2 \<le> c
        \<and> split_key k = Some (ty, desc)
        \<and> create_constraint ty desc c = Some ctext
      \<longrightarrow> map (\<lambda>x. (occurrences x, constraint x)) (filter (\<lambda>x. pattern_key x = k)
             (learned_constraints (store (save_all clk later (fst (save_trace clk t1 w0))))))
           = [(c, ctext)])"
proof -
  have d: "map (\<lambda>x. (occurrences x, constraint x)) (filter (\<lambda>x. pattern_key x = k)
             (learned_constraints (store (save_all clk later (fst (save_trace clk t1 w0))))))
           = [(c, ctext)]"
    if "distinct (map fst (mistake_patterns (store w0)))"
      "k \<notin> set (keys_of (learned_constraints (store w0)))"
      "snd (save_trace clk t1 w0) = None"
      "(k, c) \<in> set (mistake_patterns (store (fst (save_trace clk t1 w0))))"
      "2 \<le> c"
      "split_key k = Some (ty, desc)"
      "create_constraint ty desc c = Some ctext"
    by (rule first_crossing [OF that])
  show ?thesis
    using save_trace_learned_from save_all_adds_fresh_keys adds_fresh_keys_distinct d
    by blast
qed

theorem constraint_created_once_and_frozen_witness:
  "distinct (keys_of (learned_constraints (store empty_world)))
   \<and> distinct (map fst (mistake_patterns (store empty_world)))
   \<and> weather_key \<notin> set (keys_of (learned_constraints (store empty_world)))
   \<and> snd (save_trace fixed_clock (trace_with 2) empty_world) = None
   \<and> (weather_key, 2) \<in> set (mistake_patterns (store
         (fst (save_trace fixed_clock (trace_with 2) empty_world))))
   \<and> (weather_key, 5) \<in> set (mistake_patterns (store
         (save_all fixed_clock [trace_with 3]
            (fst (save_trace fixed_clock (trace_with 2) empty_world)))))
   \<and> map (\<lambda>x. (occurrences x, constraint x)) (filter (\<lambda>x. pattern_key x = weather_key)
         (learned_constraints (store (save_all fixed_clock [trace_with 3]
            (fst (save_trace fixed_clock (trace_with 2) empty_world))))))
       = [(2, ''Follow the correct tool sequence: Weather should be checked before other tools (learned from 2 past mistakes)'')]"
proof -
  have h0: "distinct (keys_of (learned_constraints (store empty_world)))"
    by (simp add: empty_world_def new_store_def load_def keys_of_def)
  have h1: "distinct (map fst (mistake_patterns (store empty_world)))"
    by (simp add: empty_world_def new_store_def load_def)
  have h2: "weather_key \<notin> set (keys_of (learned_constraints (store empty_world)))"
    by (simp add: empty_world_def new_store_def load_def keys_of_def)
  have h3: "snd (save_trace fixed_clock (trace_with 2) empty_world) = None"
    by code_simp
  have h4: "(weather_key, 2) \<in> set (mistake_patterns (store
         (fst (save_trace fixed_clock (trace_with 2) empty_world))))"
    by code_simp
  have h5: "split_key weather_key =
      Some (WRONG_SEQUENCE, ''Weather should be checked before other tools'')"
    by code_simp
  have h6: "create_constraint WRONG_SEQUENCE ''Weather should be checked before other tools'' 2
      = Some ''Follow the correct tool sequence: Weather should be checked before other tools (learned from 2 past mistakes)''"
    by code_simp
  have h7: "(weather_key, 5) \<in> set (mistake_patterns (store
         (save_all fixed_clock [trace_with 3]
            (fst (save_trace fixed_clock (trace_with 2) empty_world)))))"
    by code_simp
  have h8: "(2::int) \<le> 2"
    by simp
  show ?thesis
    using constraint_created_once_and_frozen [of fixed_clock "trace_with 2" empty_world
        "[]" empty_world weather_key "trace_with 2" 2 WRONG_SEQUENCE
        "''Weather should be checked before other tools''"
        "''Follow the correct tool sequence: Weather should be checked before other tools (learned from 2 past mistakes)''"
        "[trace_with 3]"]
      h0 h1 h2 h3 h4 h5 h6 h7 h8
    by blast
qed

subsection \<open>Constraints learned from evaluated traces\<close>

lemma fold_bump_keys:
  "fst ` set (fold (\<lambda>m. bump (pattern_key_of m)) ms ps) =
     fst ` set ps \<union> pattern_key_of ` set ms"
  by (induction ms arbitrary: ps) (auto simp: bump_keys)

lemma counted_keys:
  "fst ` set (counted trace s) =
     fst ` set (mistake_patterns s) \<union> pattern_key_of ` set (mistakes trace)"
  by (simp add: counted_def fold_bump_keys)

lemma text_of_other_kind:
  assumes "key_kind k \<noteq> Some WRONG_TOOL" "constraint_text_for k n = Some t"
  shows "\<not> starts_with ''Use the correct tool: '' t"
proof -
  obtain ty desc where sk: "split_key k = Some (ty, desc)"
    and cc: "create_constraint ty desc n = Some t"
    using assms(2) by (auto simp: constraint_text_for_def split: option.splits)
  have ty: "ty \<noteq> WRONG_TOOL"
    using assms(1) sk by (simp add: key_kind_def)
  obtain base where base: "map_of (constraints_map desc) ty = Some base"
    and t: "t = base @ '' (learned from '' @ str_int n @ '' past mistakes)''"
    using cc by (auto simp: create_constraint_def split: option.splits)
  have "\<not> starts_with ''Use the correct tool: '' (base @ rest)" for rest
    using base ty by (auto simp: constraints_map_def split: if_splits)
  then show ?thesis
    by (simp add: t)
qed

lemma save_trace_not_wrong_tool:
  assumes keys: "list_all (\<lambda>k. key_kind k \<noteq> Some WRONG_TOOL)
                   (map fst (mistake_patterns (store w)))"
    and cs: "list_all not_wrong_tool_constraint (learned_constraints (store w))"
    and ms: "list_all not_wrong_tool (mistakes trace)"
  shows "list_all (\<lambda>k. key_kind k \<noteq> Some WRONG_TOOL)
           (map fst (mistake_patterns (store (fst (save_trace clk trace w)))))
         \<and> list_all not_wrong_tool_constraint
             (learned_constraints (store (fst (save_trace clk trace w))))"
proof -
  define w1 where "w1 = fst (save_trace clk trace w)"
  have pat: "mistake_patterns (store w1) = counted trace (store w)"
    by (simp add: w1_def save_trace_patterns)
  have k1: "key_kind k \<noteq> Some WRONG_TOOL" if "k \<in> fst ` set (mistake_patterns (store w1))" for k
  proof -
    from that consider "k \<in> fst ` set (mistake_patterns (store w))"
      | "k \<in> pattern_key_of ` set (mistakes trace)"
      by (auto simp: pat counted_keys)
    then show ?thesis
    proof cases
      case 1
      then show ?thesis using keys by (auto simp: list_all_iff)
    next
      case 2
      then show ?thesis using ms by (auto simp: list_all_iff not_wrong_tool_def)
    qed
  qed
  obtain new where new: "learned_constraints (store w1) = learned_constraints (store w) @ new"
      "list_all (\<lambda>x. (pattern_key x, occurrences x) \<in> set (mistake_patterns (store w1))
                    \<and> 2 \<le> occurrences x
                    \<and> constraint_text_for (pattern_key x) (occurrences x)
                        = Some (constraint x)) new"
    using save_trace_learned_from [of clk trace w] by (auto simp: learned_from_def w1_def)
  have "not_wrong_tool_constraint x" if "x \<in> set new" for x
  proof -
    have "(pattern_key x, occurrences x) \<in> set (mistake_patterns (store w1))"
      and tx: "constraint_text_for (pattern_key x) (occurrences x) = Some (constraint x)"
      using new(2) that by (auto simp: list_all_iff)
    then have "pattern_key x \<in> fst ` set (mistake_patterns (store w1))"
      by force
    then have kk: "key_kind (pattern_key x) \<noteq> Some WRONG_TOOL"
      by (rule k1)
    show ?thesis
      using kk text_of_other_kind [OF kk tx] by (simp add: not_wrong_tool_constraint_def)
  qed
  then have "list_all not_wrong_tool_constraint (learned_constraints (store w1))"
    using cs new(1) by (auto simp: list_all_iff)
  moreover have "list_all (\<lambda>k. key_kind k \<noteq> Some WRONG_TOOL)
      (map fst (mistake_patterns (store w1)))"
    using k1 by (auto simp: list_all_iff)
  ultimately show ?thesis
    by (simp add: w1_def)
qed

lemma fold_save_not_wrong_tool:
  "list_all (\<lambda>k. key_kind k \<noteq> Some WRONG_TOOL) (map fst (mistake_patterns (store w))) \<Longrightarrow>
   list_all not_wrong_tool_constraint (learned_constraints (store w)) \<Longrightarrow>
   list_all (\<lambda>t. list_all not_wrong_tool (mistakes t)) traces \<Longrightarrow>
   list_all not_wrong_tool_constraint
     (learned_constraints (store (fold (\<lambda>trace w. fst (save_trace clk trace w)) traces w)))"
proof (induction traces arbitrary: w)
  case Nil
  then show ?case by simp
next
  case (Cons t ts)
  have step: "list_all (\<lambda>k. key_kind k \<noteq> Some WRONG_TOOL)
           (map fst (mistake_patterns (store (fst (save_trace clk t w)))))
         \<and> list_all not_wrong_tool_constraint
             (learned_constraints (store (fst (save_trace clk t w))))"
    using save_trace_not_wrong_tool [of w t clk] Cons.prems by simp
  show ?case
    using Cons.IH [of "fst (save_trace clk t w)"] step Cons.prems(3) by simp
qed

text \<open>
  C10. For every trace and every raw message log, \<^verbatim>\<open>evaluate\<close> keeps the mistakes the
  trace had and appends mistakes none of which has the type wrong_tool, although
  wrong_tool has a constraint template of its own. Hence saving the evaluated traces of
  any runs never creates a wrong_tool constraint: in a store where no pattern key and
  no constraint is of that kind, and so in a store created with no file, every
  constraint learned is of another kind and has another text than the template of
  wrong_tool.
\<close>

theorem evaluate_never_adds_wrong_tool:
  "mistakes (fst (evaluate clk trace messages n)) =
     mistakes trace @ added_mistakes clk trace messages n
   \<and> WRONG_TOOL \<notin> set (map mistake_type (added_mistakes clk trace messages n))
   \<and> create_constraint WRONG_TOOL desc c =
       Some (''Use the correct tool: '' @ desc @
             '' (learned from '' @ str_int c @ '' past mistakes)'')
   \<and> (list_all (\<lambda>k. key_kind k \<noteq> Some WRONG_TOOL) (map fst (mistake_patterns (store w)))
        \<and> list_all not_wrong_tool_constraint (learned_constraints (store w))
      \<longrightarrow> list_all not_wrong_tool_constraint
            (learned_constraints (store (save_all clk2 (map (evaluate_run clk) runs) w))))
   \<and> list_all not_wrong_tool_constraint
        (learned_constraints (store (save_all clk2 (map (evaluate_run clk) runs) empty_world)))"
proof -
  obtain new where new: "mistakes (fst (evaluate clk trace messages n)) = mistakes trace @ new"
      and ok: "list_all not_wrong_tool new"
    using evaluate_appends by blast
  have a: "added_mistakes clk trace messages n = new"
    by (simp add: added_mistakes_def new)
  have p1: "WRONG_TOOL \<notin> set (map mistake_type new)"
    using ok by (auto simp: list_all_iff not_wrong_tool_def)
  have p2: "create_constraint WRONG_TOOL desc c =
       Some (''Use the correct tool: '' @ desc @
             '' (learned from '' @ str_int c @ '' past mistakes)'')"
    by (simp add: create_constraint_def constraints_map_def kinds)
  have runs: "list_all (\<lambda>t. list_all not_wrong_tool (mistakes t)) (map (evaluate_run clk) runs)"
    by (induction runs) (simp_all add: evaluate_run_not_wrong_tool)
  have p3: "list_all not_wrong_tool_constraint
            (learned_constraints (store (save_all clk2 (map (evaluate_run clk) runs) w0)))"
    if "list_all (\<lambda>k. key_kind k \<noteq> Some WRONG_TOOL) (map fst (mistake_patterns (store w0)))"
       "list_all not_wrong_tool_constraint (learned_constraints (store w0))" for w0
    using fold_save_not_wrong_tool [OF that runs] by (simp add: save_all_def)
  have p4: "list_all not_wrong_tool_constraint
        (learned_constraints (store (save_all clk2 (map (evaluate_run clk) runs) empty_world)))"
    by (rule p3) (simp_all add: empty_world_def new_store_def load_def)
  show ?thesis
    using new a p1 p2 p3 p4 by simp
qed

theorem evaluate_never_adds_wrong_tool_witness:
  "list_all (\<lambda>k. key_kind k \<noteq> Some WRONG_TOOL) (map fst (mistake_patterns (store empty_world)))
   \<and> list_all not_wrong_tool_constraint (learned_constraints (store empty_world))
   \<and> list_all not_wrong_tool_constraint (learned_constraints (store
         (save_all fixed_clock (map (evaluate_run fixed_clock) runs_answer_only) empty_world)))
   \<and> length (learned_constraints (store
         (save_all fixed_clock (map (evaluate_run fixed_clock) runs_answer_only) empty_world)))
       = 2
   \<and> \<not> list_all not_wrong_tool_constraint (learned_constraints (store
         (save_all fixed_clock [trace_wrong_tool, trace_wrong_tool] empty_world)))"
proof -
  have h1: "list_all (\<lambda>k. key_kind k \<noteq> Some WRONG_TOOL)
      (map fst (mistake_patterns (store empty_world)))"
    by (simp add: empty_world_def new_store_def load_def)
  have h2: "list_all not_wrong_tool_constraint (learned_constraints (store empty_world))"
    by (simp add: empty_world_def new_store_def load_def)
  have h3: "length (learned_constraints (store
         (save_all fixed_clock (map (evaluate_run fixed_clock) runs_answer_only) empty_world)))
       = 2"
    by code_simp
  have h4: "\<not> list_all not_wrong_tool_constraint (learned_constraints (store
         (save_all fixed_clock [trace_wrong_tool, trace_wrong_tool] empty_world)))"
    by code_simp
  show ?thesis
    using evaluate_never_adds_wrong_tool [of fixed_clock trace0 log_answer_only 0
        "[]" 2 empty_world fixed_clock runs_answer_only] h1 h2 h3 h4
    by blast
qed

subsection \<open>Statistics\<close>

lemma round2_0: "round2 0 = 0"
  by (simp add: round2_def round_half_even_def to_float_def)

lemma round_half_even_near: "\<bar>y - of_int (round_half_even y)\<bar> \<le> 1 / 2"
proof -
  have "of_int \<lfloor>y\<rfloor> \<le> y" and "y < of_int \<lfloor>y\<rfloor> + 1"
    by linarith+
  then show ?thesis
    by (auto simp: round_half_even_def Let_def)
qed

lemma last_n_append: "length ys = n \<Longrightarrow> last_n n (xs @ ys) = ys"
  by (simp add: last_n_def)

lemma slice_neg_append:
  "length ys = 5 \<Longrightarrow> length zs = 5 \<Longrightarrow> slice_neg 10 5 (xs @ ys @ zs) = ys"
  by (simp add: slice_neg_def)

lemma improvement_of_last_ten:
  assumes "execution_history s = older @ previous @ recent"
    "length previous = 5" "length recent = 5"
  shows "improvement s =
           float_mul (float_div (count_mistakes previous - count_mistakes recent)
                        (max (count_mistakes previous) 1)) 100"
proof -
  have "last_n 5 (execution_history s) = recent"
    using assms last_n_append [of recent 5 "older @ previous"] by simp
  moreover have "slice_neg 10 5 (execution_history s) = previous"
    using assms by (simp add: slice_neg_append)
  moreover have "length (execution_history s) \<ge> 10"
    using assms by simp
  ultimately show ?thesis
    by (simp add: improvement_def Let_def)
qed

text \<open>
  C7, as stated, fails on the reported value: \<^verbatim>\<open>get_statistics\<close> reports
  \<^verbatim>\<open>round(improvement, 2)\<close>. With 3 mistakes in the preceding five runs and 1 in the
  most recent five, the reported value is the float 66.67, which is neither the float
  that \<^verbatim>\<open>(3 - 1) / max(3, 1) * 100\<close> computes nor the exact number 200/3.
\<close>

theorem improvement_rate_unrounded_counterexample:
  "count_mistakes (slice_neg 10 5 runs_3_then_1) = 3
   \<and> count_mistakes (last_n 5 runs_3_then_1) = 1
   \<and> improvement_rate (get_statistics (store_of_history runs_3_then_1))
       = to_float (6667 / 100)
   \<and> improvement_rate (get_statistics (store_of_history runs_3_then_1))
       \<noteq> float_mul (float_div (3 - 1) (max 3 1)) 100
   \<and> improvement_rate (get_statistics (store_of_history runs_3_then_1))
       \<noteq> of_int (3 - 1) / of_int (max 3 1) * 100"
  by code_simp

text \<open>
  C7, amended. \<^verbatim>\<open>get_statistics\<close> reports the improvement ratio rounded to two decimal
  places by \<^verbatim>\<open>round(improvement, 2)\<close>: it reports zero whenever fewer than 10 runs are in
  the history, and otherwise the rounded value of the float
  (previous_mistakes - recent_mistakes) / max(previous_mistakes, 1) * 100, where
  recent_mistakes is the number of mistakes of the most recent 5 runs and
  previous_mistakes that of the 5 runs before them; the divisor is 1 when those 5 runs
  had no mistakes. The rounded value is the float nearest to a multiple of 1/100 that is
  at most 1/200 away from the value rounded.
\<close>

theorem improvement_rate_rounded:
  "(length (execution_history s0) < 10 \<longrightarrow> improvement_rate (get_statistics s0) = 0)
   \<and> (execution_history s = older @ previous @ recent \<and> length previous = 5
        \<and> length recent = 5
      \<longrightarrow> improvement_rate (get_statistics s) =
            round2 (float_mul (float_div (count_mistakes previous - count_mistakes recent)
                                 (max (count_mistakes previous) 1)) 100))
   \<and> (execution_history s = older @ previous @ recent \<and> length previous = 5
        \<and> length recent = 5 \<and> count_mistakes previous = 0
      \<longrightarrow> improvement_rate (get_statistics s) =
            round2 (float_mul (float_div (- count_mistakes recent) 1) 100))
   \<and> (\<exists>k. round2 x = to_float (of_int k / 100) \<and> \<bar>x * 100 - of_int k\<bar> \<le> 1 / 2)"
proof -
  have b: "improvement_rate (get_statistics s0) = 0"
    if "length (execution_history s0) < 10"
    using that by (simp add: improvement_def get_statistics_def round2_0)
  have c: "improvement_rate (get_statistics s) =
            round2 (float_mul (float_div (count_mistakes previous - count_mistakes recent)
                                 (max (count_mistakes previous) 1)) 100)"
    if "execution_history s = older @ previous @ recent" "length previous = 5"
       "length recent = 5"
    using improvement_of_last_ten [OF that] by (simp add: get_statistics_def)
  have d: "improvement_rate (get_statistics s) =
            round2 (float_mul (float_div (- count_mistakes recent) 1) 100)"
    if "execution_history s = older @ previous @ recent" "length previous = 5"
       "length recent = 5" "count_mistakes previous = 0"
    using c [OF that(1,2,3)] that(4) by simp
  have e: "\<exists>k. round2 x = to_float (of_int k / 100) \<and> \<bar>x * 100 - of_int k\<bar> \<le> 1 / 2"
    using round_half_even_near [of "x * 100"] by (auto simp: round2_def)
  show ?thesis
    using b c d e by blast
qed

theorem improvement_rate_rounded_witness:
  "length (execution_history (store_of_history [trace_with 1])) < 10
   \<and> improvement_rate (get_statistics (store_of_history [trace_with 1])) = 0
   \<and> execution_history (store_of_history runs_0_then_2) =
        [] @ replicate 5 (trace_with 0) @ (trace_with 2 # replicate 4 (trace_with 0))
   \<and> count_mistakes (replicate 5 (trace_with 0)) = 0
   \<and> improvement_rate (get_statistics (store_of_history runs_0_then_2)) = - 200"
proof -
  have h0: "length (execution_history (store_of_history [trace_with 1])) < 10"
    by (simp add: store_of_history_def)
  have h1: "execution_history (store_of_history runs_0_then_2) =
        [] @ replicate 5 (trace_with 0) @ (trace_with 2 # replicate 4 (trace_with 0))"
    by (simp add: store_of_history_def runs_0_then_2_def)
  have h2: "length (replicate 5 (trace_with 0)) = 5"
    and h3: "length (trace_with 2 # replicate 4 (trace_with 0)) = 5"
    by simp_all
  have h4: "count_mistakes (replicate 5 (trace_with 0)) = 0"
    by code_simp
  have h5: "count_mistakes (trace_with 2 # replicate 4 (trace_with 0)) = 2"
    by code_simp
  have r: "round2 (float_mul (float_div (- 2) 1) 100) = - 200"
    by code_simp
  show ?thesis
    using improvement_rate_rounded [of "store_of_history [trace_with 1]"
        "store_of_history runs_0_then_2" "[]" "replicate 5 (trace_with 0)"
        "trace_with 2 # replicate 4 (trace_with 0)"] h0 h1 h2 h3 h4 h5 r
    by simp
qed

text \<open>
  With 160 mistakes in the preceding five runs and 67 in the most recent five, the float
  product is just above 58.125 and the reported value is the float 58.13.
\<close>

lemma reported_160_then_67:
  "improvement_rate (get_statistics (store_of_history runs_160_then_67)) =
     to_float (5813 / 100)"
  by code_simp

end
